theory Spec2Isabelle
  imports Complex_Main "HOL-Library.Word" "HOL-Library.Log_Nat"
begin

unbundle bit_operations_syntax

section \<open>JavaScript numbers and 32-bit operators\<close>

text \<open>
  The numbers that reach the pixel path are integers: the bytes of a canvas
  \<open>ImageData\<close> and the results of \<open>Math.round\<close>. They are modelled as \<open>int\<close>.
  The bitwise operators of JavaScript first convert each operand to a signed 32-bit
  integer (\<open>ToInt32\<close>) and return a signed 32-bit integer; a shift count is taken
  modulo 32.
\<close>

definition ToInt32 :: "int \<Rightarrow> 32 word" where
  "ToInt32 x = word_of_int x"

definition js_shl :: "int \<Rightarrow> nat \<Rightarrow> int" where
  "js_shl x n = sint (push_bit (n mod 32) (ToInt32 x))"

definition js_or :: "int \<Rightarrow> int \<Rightarrow> int" where
  "js_or x y = sint (ToInt32 x OR ToInt32 y)"

definition js_and :: "int \<Rightarrow> int \<Rightarrow> int" where
  "js_and x y = sint (ToInt32 x AND ToInt32 y)"

text \<open>
  Arithmetic on fractions is IEEE double arithmetic: the result of a division or a
  multiplication is the exact result rounded to the nearest number with a 53-bit
  significand, a tie going to the even significand. A double is modelled by the rational
  it denotes and \<open>toDouble\<close> is that rounding: \<open>binade x\<close> is the exponent \<open>e\<close>
  with \<open>2^e \<le> x < 2^(e+1)\<close>, and the significand is \<open>x / 2^(e-52)\<close> rounded to an
  integer. Overflow and subnormal numbers are left out: every value below lies between
  \<open>2^-1022\<close> and \<open>2^1024\<close>, or is zero.
\<close>

definition binade :: "rat \<Rightarrow> int" where
  "binade x =
     (let (a, b) = quotient_of x; e0 = bitlen a - bitlen b
      in if x < 2 powi e0 then e0 - 1 else e0)"

definition roundHalfEven :: "rat \<Rightarrow> int" where
  "roundHalfEven q =
     (let f = \<lfloor>q\<rfloor>; d = q - of_int f
      in if d < 1 / 2 then f else if 1 / 2 < d then f + 1 else if even f then f else f + 1)"

definition toDouble :: "rat \<Rightarrow> rat" where
  "toDouble x =
     (if x = 0 then 0
      else let e = binade \<bar>x\<bar>
           in sgn x * of_int (roundHalfEven (\<bar>x\<bar> * 2 powi (52 - e))) * 2 powi (e - 52))"

text \<open>
  \<open>Math.round\<close> returns the integer nearest to its argument, a tie going up. It is
  exact on the double it is given.
\<close>

definition Math_round :: "rat \<Rightarrow> int" where
  "Math_round x = \<lfloor>x + 1 / 2\<rfloor>"

section \<open>ImageProcessor: pixels\<close>

record pixel =
  px_r :: int
  px_g :: int
  px_b :: int
  px_a :: int
  px_dword :: int

record imageData =
  id_width :: nat
  id_height :: nat
  id_data :: "8 word list"

record pixelData =
  pd_width :: nat
  pd_height :: nat
  pd_pixels :: "pixel list"

text \<open>\<open>rgbToDword(r, g, b)\<close> is \<open>(b << 16) | (g << 8) | r\<close>.\<close>

definition rgbToDword :: "int \<Rightarrow> int \<Rightarrow> int \<Rightarrow> int" where
  "rgbToDword r g b = js_or (js_or (js_shl b 16) (js_shl g 8)) r"

text \<open>
  The loop of \<open>convertToPixelArray\<close> walks the byte array four bytes at a time.
  The array of an \<open>ImageData\<close> always holds four bytes for each pixel, so the last
  equation is never reached with bytes left over.
\<close>

fun convertPixels :: "8 word list \<Rightarrow> pixel list" where
  "convertPixels (r # g # b # a # rest) =
     \<lparr>px_r = uint r, px_g = uint g, px_b = uint b, px_a = uint a,
      px_dword = rgbToDword (uint r) (uint g) (uint b)\<rparr> # convertPixels rest"
| "convertPixels _ = []"

definition convertToPixelArray :: "imageData \<Rightarrow> pixelData" where
  "convertToPixelArray imageData =
     \<lparr>pd_width = id_width imageData, pd_height = id_height imageData,
      pd_pixels = convertPixels (id_data imageData)\<rparr>"

text \<open>
  \<open>applyBrightness\<close> computes \<open>scale = brightness / 100\<close> and maps every pixel:
  the alpha channel is spread unchanged, each colour channel becomes
  \<open>Math.round(channel * scale)\<close>, and the word is packed again from the scaled
  channels. The quotient and the products are doubles. Nothing clamps a scaled channel.
\<close>

definition scalePixel :: "rat \<Rightarrow> pixel \<Rightarrow> pixel" where
  "scalePixel scale p =
     p\<lparr>px_r := Math_round (toDouble (of_int (px_r p) * scale)),
       px_g := Math_round (toDouble (of_int (px_g p) * scale)),
       px_b := Math_round (toDouble (of_int (px_b p) * scale)),
       px_dword := rgbToDword (Math_round (toDouble (of_int (px_r p) * scale)))
                              (Math_round (toDouble (of_int (px_g p) * scale)))
                              (Math_round (toDouble (of_int (px_b p) * scale)))\<rparr>"

definition applyBrightness :: "pixelData \<Rightarrow> int \<Rightarrow> pixel list" where
  "applyBrightness pixelData brightness =
     (let scale = toDouble (of_int brightness / 100)
      in map (scalePixel scale) (pd_pixels pixelData))"

section \<open>ImageProcessor: resizing and names\<close>

text \<open>
  \<open>processImageWithResize(image, targetWidth, targetHeight, mode)\<close> chooses a source
  rectangle \<open>(sx, sy, sWidth, sHeight)\<close> and hands it to the canvas. The model keeps
  that rectangle, which is computed in integers; the destination rectangle of the
  \<open>fit\<close> mode and the drawing itself belong to the canvas. The mode is a string and
  a \<open>switch\<close> over it: a mode that matches no case leaves the initial values, as
  \<open>stretch\<close> and \<open>fit\<close> do. The function has four parameters.
\<close>

definition processImageWithResize :: "int \<Rightarrow> int \<Rightarrow> int \<Rightarrow> int \<Rightarrow> string \<Rightarrow> int \<times> int \<times> int \<times> int" where
  "processImageWithResize imageWidth imageHeight targetWidth targetHeight mode =
     (if mode = ''crop-top'' then
        (0, 0, min targetWidth imageWidth, min targetHeight imageHeight)
      else if mode = ''crop-bottom'' then
        (0, max 0 (imageHeight - min targetHeight imageHeight),
         min targetWidth imageWidth, min targetHeight imageHeight)
      else if mode = ''crop-center'' then
        ((imageWidth - min targetWidth imageWidth) div 2,
         (imageHeight - min targetHeight imageHeight) div 2,
         min targetWidth imageWidth, min targetHeight imageHeight)
      else (0, 0, imageWidth, imageHeight))"

text \<open>
  A JavaScript string is a sequence of UTF-16 code units. \<open>js_str\<close> writes a string
  of ASCII characters as one.
\<close>

type_synonym js_string = "16 word list"

definition js_str :: "string \<Rightarrow> js_string" where
  "js_str s = map of_char s"

text \<open>
  \<open>sanitizeName(name)\<close> is \<open>name.toUpperCase().replace(/[^A-Z0-9_]/g, '_')\<close>.
  The expression has no \<open>u\<close> flag, so the replacement judges every code unit by
  itself: \<open>nameUnit\<close> holds of the units of A-Z (65-90), 0-9 (48-57) and the underscore
  (95). \<open>String.prototype.toUpperCase\<close> applies the case mapping of Unicode, which is
  the host's; it is the parameter \<open>toUpperCase\<close> of \<open>sanitizeName\<close> and of every
  function that calls it. On a string of ASCII characters the host function maps the
  units of a-z (97-122) to those of A-Z and leaves every other unit, as
  \<open>asciiUpper\<close> does unit by unit.
\<close>

definition nameUnit :: "16 word \<Rightarrow> bool" where
  "nameUnit c \<longleftrightarrow>
     (65 \<le> unat c \<and> unat c \<le> 90) \<or> (48 \<le> unat c \<and> unat c \<le> 57) \<or> unat c = 95"

definition sanitizeName :: "(js_string \<Rightarrow> js_string) \<Rightarrow> js_string \<Rightarrow> js_string" where
  "sanitizeName toUpperCase name =
     map (\<lambda>c. if nameUnit c then c else 95) (toUpperCase name)"

definition asciiUpper :: "16 word \<Rightarrow> 16 word" where
  "asciiUpper c = (if 97 \<le> unat c \<and> unat c \<le> 122 then c - 32 else c)"

section \<open>FrameManager\<close>

text \<open>
  The frame index is a JavaScript number. Every value that the operations below can
  produce from integers is an integer or \<open>NaN\<close> (the remainder by zero), so a number
  is modelled as one of the two. A comparison with \<open>NaN\<close> is false; \<open>%\<close> takes the
  sign of the dividend.
\<close>

datatype jsnum = Num int | NaN

fun js_add :: "jsnum \<Rightarrow> jsnum \<Rightarrow> jsnum" where
  "js_add (Num x) (Num y) = Num (x + y)"
| "js_add _ _ = NaN"

fun js_sub :: "jsnum \<Rightarrow> jsnum \<Rightarrow> jsnum" where
  "js_sub (Num x) (Num y) = Num (x - y)"
| "js_sub _ _ = NaN"

fun js_rem :: "jsnum \<Rightarrow> jsnum \<Rightarrow> jsnum" where
  "js_rem (Num x) (Num y) = (if y = 0 then NaN else Num (sgn x * (\<bar>x\<bar> mod \<bar>y\<bar>)))"
| "js_rem _ _ = NaN"

fun js_lt :: "jsnum \<Rightarrow> jsnum \<Rightarrow> bool" where
  "js_lt (Num x) (Num y) = (x < y)"
| "js_lt _ _ = False"

fun js_le :: "jsnum \<Rightarrow> jsnum \<Rightarrow> bool" where
  "js_le (Num x) (Num y) = (x \<le> y)"
| "js_le _ _ = False"

fun js_ge :: "jsnum \<Rightarrow> jsnum \<Rightarrow> bool" where
  "js_ge (Num x) (Num y) = (x \<ge> y)"
| "js_ge _ _ = False"

datatype event = PlayStateChange bool | FrameChange jsnum

text \<open>
  The fields of the class, followed by the part of the host that the class acts on:
  \<open>emitted\<close> is the sequence of \<open>emit\<close> calls so far, \<open>intervals\<close> the interval
  timers that \<open>setInterval\<close> has started and \<open>clearInterval\<close> has not cancelled
  (each with the frame rate its period \<open>1000 / fps\<close> was computed from), and
  \<open>nextTimerId\<close> the handle the host gives out next. A browser's handles are positive
  integers. A frame is whatever the handler stores; only the length of the array matters
  to the class.
\<close>

record 'f frameManager =
  frames :: "'f list"
  currentFrame :: jsnum
  fps :: int
  loopMode :: string
  playing :: bool
  direction :: int
  animationTimer :: "nat option"
  emitted :: "event list"
  intervals :: "(nat \<times> int) list"
  nextTimerId :: nat

definition new_FrameManager :: "'f frameManager" where
  "new_FrameManager =
     \<lparr>frames = [], currentFrame = Num 0, fps = 30, loopMode = ''loop'', playing = False,
      direction = 1, animationTimer = None, emitted = [], intervals = [], nextTimerId = 1\<rparr>"

definition emit :: "event \<Rightarrow> 'f frameManager \<Rightarrow> 'f frameManager" where
  "emit e s = s\<lparr>emitted := emitted s @ [e]\<rparr>"

definition setInterval :: "int \<Rightarrow> 'f frameManager \<Rightarrow> nat \<times> 'f frameManager" where
  "setInterval rate s =
     (nextTimerId s,
      s\<lparr>intervals := intervals s @ [(nextTimerId s, rate)], nextTimerId := Suc (nextTimerId s)\<rparr>)"

definition clearInterval :: "nat \<Rightarrow> 'f frameManager \<Rightarrow> 'f frameManager" where
  "clearInterval t s = s\<lparr>intervals := filter (\<lambda>x. fst x \<noteq> t) (intervals s)\<rparr>"

definition frameCount :: "'f frameManager \<Rightarrow> int" where
  "frameCount s = int (length (frames s))"

definition stop :: "'f frameManager \<Rightarrow> 'f frameManager" where
  "stop s =
     (if \<not> playing s then s
      else
        let s1 = emit (PlayStateChange False) (s\<lparr>playing := False\<rparr>)
        in (case animationTimer s1 of
              None \<Rightarrow> s1
            | Some t \<Rightarrow> if t \<noteq> 0 then (clearInterval t s1)\<lparr>animationTimer := None\<rparr> else s1))"

definition play :: "'f frameManager \<Rightarrow> 'f frameManager" where
  "play s =
     (if length (frames s) = 0 then s
      else if playing s then s
      else
        let s1 = emit (PlayStateChange True) (s\<lparr>playing := True\<rparr>);
            (t, s2) = setInterval (fps s1) s1
        in s2\<lparr>animationTimer := Some t\<rparr>)"

definition setFrames :: "'f list \<Rightarrow> 'f frameManager \<Rightarrow> 'f frameManager" where
  "setFrames fs s = stop (s\<lparr>frames := fs, currentFrame := Num 0\<rparr>)"

definition setFPS :: "int \<Rightarrow> 'f frameManager \<Rightarrow> 'f frameManager" where
  "setFPS rate s =
     (let s1 = s\<lparr>fps := rate\<rparr> in if playing s1 then play (stop s1) else s1)"

definition setLoopMode :: "string \<Rightarrow> 'f frameManager \<Rightarrow> 'f frameManager" where
  "setLoopMode mode s = s\<lparr>loopMode := mode, direction := 1\<rparr>"

definition advanceFrame :: "'f frameManager \<Rightarrow> 'f frameManager" where
  "advanceFrame s =
     (let s' =
        (if loopMode s = ''loop'' then
           s\<lparr>currentFrame := js_rem (js_add (currentFrame s) (Num 1)) (Num (frameCount s))\<rparr>
         else if loopMode s = ''once'' then
           (if js_lt (currentFrame s) (Num (frameCount s - 1))
            then s\<lparr>currentFrame := js_add (currentFrame s) (Num 1)\<rparr>
            else stop s)
         else if loopMode s = ''pingpong'' then
           (let s1 = s\<lparr>currentFrame := js_add (currentFrame s) (Num (direction s))\<rparr>
            in if js_ge (currentFrame s1) (Num (frameCount s1 - 1))
               then s1\<lparr>currentFrame := Num (frameCount s1 - 1), direction := - 1\<rparr>
               else if js_le (currentFrame s1) (Num 0)
               then s1\<lparr>currentFrame := Num 0, direction := 1\<rparr>
               else s1)
         else s)
      in emit (FrameChange (currentFrame s')) s')"

definition goToFrame :: "jsnum \<Rightarrow> 'f frameManager \<Rightarrow> 'f frameManager" where
  "goToFrame index s =
     (if js_lt index (Num 0) \<or> js_ge index (Num (frameCount s)) then s
      else emit (FrameChange index) (s\<lparr>currentFrame := index\<rparr>))"

definition nextFrame :: "'f frameManager \<Rightarrow> 'f frameManager" where
  "nextFrame s =
     (let nextIndex = js_rem (js_add (currentFrame s) (Num 1)) (Num (frameCount s))
      in goToFrame nextIndex s)"

definition previousFrame :: "'f frameManager \<Rightarrow> 'f frameManager" where
  "previousFrame s =
     (let prevIndex = js_sub (currentFrame s) (Num 1);
          wrappedIndex = (if js_lt prevIndex (Num 0) then Num (frameCount s - 1) else prevIndex)
      in goToFrame wrappedIndex s)"

definition destroy :: "'f frameManager \<Rightarrow> 'f frameManager" where
  "destroy s = (stop s)\<lparr>frames := []\<rparr>"

text \<open>
  The callback of every interval timer that \<open>play\<close> starts is \<open>advanceFrame\<close>. A
  timer fires only while it is active; one tick of the clock fires each timer that was
  active when the tick began and has not been cancelled before its turn.
\<close>

definition timerFires :: "nat \<Rightarrow> 'f frameManager \<Rightarrow> 'f frameManager" where
  "timerFires t s = (if t \<in> set (map fst (intervals s)) then advanceFrame s else s)"

definition tick :: "'f frameManager \<Rightarrow> 'f frameManager" where
  "tick s = fold timerFires (map fst (intervals s)) s"

text \<open>The public operations, and a run of them from a state.\<close>

datatype 'f operation =
    Play | Stop | SetFrames "'f list" | SetFPS int | SetLoopMode string
  | GoToFrame jsnum | NextFrame | PreviousFrame | AdvanceFrame | Destroy | Tick

fun perform :: "'f operation \<Rightarrow> 'f frameManager \<Rightarrow> 'f frameManager" where
  "perform Play s = play s"
| "perform Stop s = stop s"
| "perform (SetFrames fs) s = setFrames fs s"
| "perform (SetFPS rate) s = setFPS rate s"
| "perform (SetLoopMode mode) s = setLoopMode mode s"
| "perform (GoToFrame index) s = goToFrame index s"
| "perform NextFrame s = nextFrame s"
| "perform PreviousFrame s = previousFrame s"
| "perform AdvanceFrame s = advanceFrame s"
| "perform Destroy s = destroy s"
| "perform Tick s = tick s"

definition run :: "'f operation list \<Rightarrow> 'f frameManager \<Rightarrow> 'f frameManager" where
  "run ops s = fold perform ops s"

text \<open>The indices seen after each of the first \<open>n\<close> calls of \<open>advanceFrame\<close>.\<close>

definition indicesAfter :: "nat \<Rightarrow> 'f frameManager \<Rightarrow> jsnum list" where
  "indicesAfter n s = map (\<lambda>k. currentFrame ((advanceFrame ^^ k) s)) [1..<Suc n]"

section \<open>AnimationExporter: the generated identifier\<close>

text \<open>
  \<open>generateGUID\<close> replaces every \<open>x\<close> and \<open>y\<close> of the template
  \<open>{xxxxxxxx-xxxx-4xxx-yxxx-xxxxxxxxxxxx}\<close>, from left to right, by the hexadecimal
  digit of a value computed from a fresh call of \<open>Math.random()\<close>. The random source
  is a parameter: \<open>random i\<close> is the result of the \<open>i\<close>-th call, a number at least 0
  and below 1. \<open>Math.random() * 16 | 0\<close> drops the fraction (\<open>ToInt32\<close> truncates
  towards zero); multiplying a double below 1 by 16 is exact, so rationals model it
  faithfully.
\<close>

definition js_trunc :: "rat \<Rightarrow> int" where
  "js_trunc x = (if 0 \<le> x then \<lfloor>x\<rfloor> else \<lceil>x\<rceil>)"

definition hexDigit :: "nat \<Rightarrow> char" where
  "hexDigit n = ''0123456789abcdef'' ! (n mod 16)"

fun natToHex :: "nat \<Rightarrow> string" where
  "natToHex n = (if n < 16 then [hexDigit n] else natToHex (n div 16) @ [hexDigit n])"

declare natToHex.simps [simp del]

text \<open>\<open>v.toString(16)\<close> for an integer \<open>v\<close>.\<close>

definition toString16 :: "int \<Rightarrow> string" where
  "toString16 v = (if v < 0 then CHR ''-'' # natToHex (nat (- v)) else natToHex (nat v))"

definition guidDigit :: "char \<Rightarrow> rat \<Rightarrow> string" where
  "guidDigit c x =
     (let r = js_or (js_trunc (x * 16)) 0;
          v = (if c = CHR ''x'' then r else js_or (js_and r 3) 8)
      in toString16 v)"

fun replaceXY :: "(nat \<Rightarrow> rat) \<Rightarrow> nat \<Rightarrow> string \<Rightarrow> string" where
  "replaceXY random i [] = []"
| "replaceXY random i (c # cs) =
     (if c = CHR ''x'' \<or> c = CHR ''y''
      then guidDigit c (random i) @ replaceXY random (Suc i) cs
      else c # replaceXY random i cs)"

definition generateGUID :: "(nat \<Rightarrow> rat) \<Rightarrow> string" where
  "generateGUID random = replaceXY random 0 ''{xxxxxxxx-xxxx-4xxx-yxxx-xxxxxxxxxxxx}''"

section \<open>SequenceHandler\<close>

text \<open>
  \<open>drawCropOverlay\<close> computes the region that the preview shows as exported, from the
  handler's crop offsets, and clamps it to the frame. For \<open>stretch\<close> and \<open>fit\<close> it
  returns before drawing anything; a mode that matches no case keeps the initial region.
\<close>

definition drawCropOverlay :: "int \<Rightarrow> int \<Rightarrow> int \<Rightarrow> int \<Rightarrow> string \<Rightarrow> int \<Rightarrow> int \<Rightarrow> (int \<times> int \<times> int \<times> int) option" where
  "drawCropOverlay frameWidth frameHeight targetWidth targetHeight mode cropOffsetX cropOffsetY =
     (let region =
        (if mode = ''crop-top'' then
           Some (cropOffsetX, cropOffsetY, min targetWidth frameWidth, min targetHeight frameHeight)
         else if mode = ''crop-bottom'' then
           Some (cropOffsetX,
                 max 0 (frameHeight - min targetHeight frameHeight) + cropOffsetY,
                 min targetWidth frameWidth, min targetHeight frameHeight)
         else if mode = ''crop-center'' then
           Some ((frameWidth - min targetWidth frameWidth) div 2 + cropOffsetX,
                 (frameHeight - min targetHeight frameHeight) div 2 + cropOffsetY,
                 min targetWidth frameWidth, min targetHeight frameHeight)
         else if mode = ''stretch'' \<or> mode = ''fit'' then None
         else Some (0, 0, targetWidth, targetHeight))
      in case region of
           None \<Rightarrow> None
         | Some (cropX, cropY, cropW, cropH) \<Rightarrow>
             Some (max 0 (min cropX (frameWidth - cropW)),
                   max 0 (min cropY (frameHeight - cropH)), cropW, cropH))"

text \<open>
  \<open>reprocessFrames\<close> calls \<open>processImageWithResize(frame.image, targetWidth,
  targetHeight, mode, this.cropOffsetX, this.cropOffsetY)\<close> for every frame. The callee
  declares four parameters, so the two offsets are evaluated and dropped. This is the
  source rectangle that a frame of the given size is then cut from.
\<close>

definition reprocessFrames :: "int \<Rightarrow> int \<Rightarrow> int \<Rightarrow> int \<Rightarrow> string \<Rightarrow> int \<Rightarrow> int \<Rightarrow> int \<times> int \<times> int \<times> int" where
  "reprocessFrames imageWidth imageHeight targetWidth targetHeight mode cropOffsetX cropOffsetY =
     processImageWithResize imageWidth imageHeight targetWidth targetHeight mode"

text \<open>
  Loading a batch. A file either decodes to an image or fails to load. The sort of the
  files by name uses the locale's collation; the batch is taken in sorted order. Of the
  handler, the model keeps the frame list, the established dimensions, the frame manager,
  the animation name, the listed file names and the messages shown. What the source
  throws is caught by \<open>loadFrames\<close> itself and shown as a message; the assignments
  made before the throw stay.
\<close>

record image =
  im_width :: nat
  im_height :: nat
  im_data :: "8 word list"

record frame_file =
  f_name :: js_string
  f_image :: "image option"

record frame =
  fr_index :: nat
  fr_filename :: js_string
  fr_image :: image
  fr_originalPixelData :: pixelData
  fr_pixelData :: pixelData

datatype load_error =
    DimensionMismatch nat nat nat "nat option" "nat option"
  | FailedToLoad js_string
  | NoFirstFile

datatype message = Loaded nat | Failed load_error

record sequenceHandler =
  sh_frames :: "frame list"
  frameWidth :: "nat option"
  frameHeight :: "nat option"
  frameManager :: "frame frameManager"
  animationName :: js_string
  fileList :: "js_string list"
  snackbar :: "message list"

definition new_SequenceHandler :: sequenceHandler where
  "new_SequenceHandler =
     \<lparr>sh_frames = [], frameWidth = None, frameHeight = None, frameManager = new_FrameManager,
      animationName = [], fileList = [], snackbar = []\<rparr>"

definition processImage :: "image \<Rightarrow> pixelData" where
  "processImage img =
     convertToPixelArray \<lparr>id_width = im_width img, id_height = im_height img, id_data = im_data img\<rparr>"

definition mkFrame :: "nat \<Rightarrow> frame_file \<Rightarrow> image \<Rightarrow> frame" where
  "mkFrame i f img =
     \<lparr>fr_index = i, fr_filename = f_name f, fr_image = img,
      fr_originalPixelData = processImage img, fr_pixelData = processImage img\<rparr>"

definition addFrame :: "nat \<Rightarrow> frame_file \<Rightarrow> image \<Rightarrow> sequenceHandler \<Rightarrow> sequenceHandler" where
  "addFrame i f img h =
     h\<lparr>sh_frames := sh_frames h @ [mkFrame i f img], fileList := fileList h @ [f_name f]\<rparr>"

fun loadLoop :: "nat \<Rightarrow> frame_file list \<Rightarrow> sequenceHandler \<Rightarrow> sequenceHandler \<times> load_error option" where
  "loadLoop i [] h = (h, None)"
| "loadLoop i (f # fs) h =
     (case f_image f of
        None \<Rightarrow> (h, Some (FailedToLoad (f_name f)))
      | Some img \<Rightarrow>
          if i = 0 then
            loadLoop (Suc i) fs
              (addFrame i f img (h\<lparr>frameWidth := Some (im_width img), frameHeight := Some (im_height img)\<rparr>))
          else if Some (im_width img) \<noteq> frameWidth h \<or> Some (im_height img) \<noteq> frameHeight h then
            (h, Some (DimensionMismatch (i + 1) (im_width img) (im_height img) (frameWidth h) (frameHeight h)))
          else loadLoop (Suc i) fs (addFrame i f img h))"

text \<open>
  The default name: the file name up to its last dot (unit 46), or \<open>MY_ANIMATION\<close>
  when that is empty, with the digits (units 48-57) at its end removed.
\<close>

definition baseName :: "js_string \<Rightarrow> js_string" where
  "baseName name =
     (if 46 \<in> set name
      then take (length name - Suc (length (takeWhile (\<lambda>c. c \<noteq> 46) (rev name)))) name
      else [])"

definition stripTrailingDigits :: "js_string \<Rightarrow> js_string" where
  "stripTrailingDigits name =
     rev (dropWhile (\<lambda>c. 48 \<le> unat c \<and> unat c \<le> 57) (rev name))"

definition loadFrames :: "(js_string \<Rightarrow> js_string) \<Rightarrow> frame_file list \<Rightarrow> sequenceHandler \<Rightarrow> sequenceHandler" where
  "loadFrames toUpperCase files h =
     (let (h1, err) = loadLoop 0 files (h\<lparr>sh_frames := [], fileList := []\<rparr>)
      in case err of
           Some e \<Rightarrow> h1\<lparr>snackbar := snackbar h1 @ [Failed e]\<rparr>
         | None \<Rightarrow>
             (case files of
                [] \<Rightarrow> h1\<lparr>snackbar := snackbar h1 @ [Failed NoFirstFile]\<rparr>
              | f0 # _ \<Rightarrow>
                  let defaultName = (if baseName (f_name f0) = [] then js_str ''MY_ANIMATION''
                                     else baseName (f_name f0))
                  in h1\<lparr>animationName := sanitizeName toUpperCase (stripTrailingDigits defaultName),
                        frameManager := goToFrame (Num 0) (setFrames (sh_frames h1) (frameManager h1)),
                        snackbar := snackbar h1 @ [Loaded (length files)]\<rparr>))"

text \<open>
  The animation name is the value of a text field. The listener of the field's
  \<open>input\<close> event replaces what the user has entered by its sanitized form, and
  \<open>loadFrames\<close> writes a sanitized default. \<open>exportTwinCAT\<close> and \<open>exportJSON\<close>
  read the field, fall back to \<open>MY_ANIMATION\<close> when it is empty, and pass the result
  as \<open>options.name\<close> to the exporter, which splices it into every declaration.
\<close>

definition animationNameInput :: "(js_string \<Rightarrow> js_string) \<Rightarrow> js_string \<Rightarrow> sequenceHandler \<Rightarrow> sequenceHandler" where
  "animationNameInput toUpperCase entered h = h\<lparr>animationName := sanitizeName toUpperCase entered\<rparr>"

definition exportName :: "sequenceHandler \<Rightarrow> js_string" where
  "exportName h = (if animationName h = [] then js_str ''MY_ANIMATION'' else animationName h)"

datatype sequenceEvent = NameEntered js_string | FilesChosen "frame_file list"

fun onSequenceEvent :: "(js_string \<Rightarrow> js_string) \<Rightarrow> sequenceEvent \<Rightarrow> sequenceHandler \<Rightarrow> sequenceHandler" where
  "onSequenceEvent toUpperCase (NameEntered entered) h = animationNameInput toUpperCase entered h"
| "onSequenceEvent toUpperCase (FilesChosen files) h = loadFrames toUpperCase files h"

section \<open>SingleImageHandler\<close>

text \<open>
  The handler of a single image keeps the image, its pixel data and the name field.
  \<open>loadImage\<close> writes the sanitized file name without its extension, or
  \<open>MY_IMAGE\<close>, once the file has decoded; a file that does not decode leaves the
  handler as it was. The export reads the field and falls back to \<open>MY_IMAGE\<close>.
\<close>

record singleImageHandler =
  currentImage :: "image option"
  currentPixelData :: "pixelData option"
  imageName :: js_string

definition new_SingleImageHandler :: singleImageHandler where
  "new_SingleImageHandler = \<lparr>currentImage = None, currentPixelData = None, imageName = []\<rparr>"

definition loadImage :: "(js_string \<Rightarrow> js_string) \<Rightarrow> frame_file \<Rightarrow> singleImageHandler \<Rightarrow> singleImageHandler" where
  "loadImage toUpperCase file h =
     (case f_image file of
        None \<Rightarrow> h
      | Some img \<Rightarrow>
          let defaultName = (if baseName (f_name file) = [] then js_str ''MY_IMAGE''
                             else baseName (f_name file))
          in h\<lparr>currentImage := Some img,
                imageName := sanitizeName toUpperCase defaultName,
                currentPixelData := Some (processImage img)\<rparr>)"

definition imageNameInput :: "(js_string \<Rightarrow> js_string) \<Rightarrow> js_string \<Rightarrow> singleImageHandler \<Rightarrow> singleImageHandler" where
  "imageNameInput toUpperCase entered h = h\<lparr>imageName := sanitizeName toUpperCase entered\<rparr>"

definition singleExportName :: "singleImageHandler \<Rightarrow> js_string" where
  "singleExportName h = (if imageName h = [] then js_str ''MY_IMAGE'' else imageName h)"

datatype singleEvent = ImageNameEntered js_string | ImageChosen frame_file

fun onSingleEvent :: "(js_string \<Rightarrow> js_string) \<Rightarrow> singleEvent \<Rightarrow> singleImageHandler \<Rightarrow> singleImageHandler" where
  "onSingleEvent toUpperCase (ImageNameEntered entered) h = imageNameInput toUpperCase entered h"
| "onSingleEvent toUpperCase (ImageChosen file) h = loadImage toUpperCase file h"

section \<open>Example states\<close>

text \<open>
  A one-pixel image whose red and blue channels are full, for brightness above 100.
\<close>

definition overflowPixel :: pixel where
  "overflowPixel = \<lparr>px_r = 255, px_g = 0, px_b = 255, px_a = 255, px_dword = 16711935\<rparr>"

definition overflowData :: pixelData where
  "overflowData = \<lparr>pd_width = 1, pd_height = 1, pd_pixels = [overflowPixel]\<rparr>"

text \<open>A random source that runs through the sixteen values \<open>k / 16\<close>.\<close>

definition cycleRandom :: "nat \<Rightarrow> rat" where
  "cycleRandom i = of_nat (i mod 16) / 16"

text \<open>A batch of two files: a 1 by 1 image followed by a 2 by 1 image.\<close>

definition smallImage :: image where
  "smallImage = \<lparr>im_width = 1, im_height = 1, im_data = [255, 0, 0, 255]\<rparr>"

definition wideImage :: image where
  "wideImage = \<lparr>im_width = 2, im_height = 1, im_data = [255, 0, 0, 255, 0, 255, 0, 255]\<rparr>"

definition mixedBatch :: "frame_file list" where
  "mixedBatch =
     [\<lparr>f_name = js_str ''a_001.png'', f_image = Some smallImage\<rparr>,
      \<lparr>f_name = js_str ''a_002.png'', f_image = Some wideImage\<rparr>]"

text \<open>Upper-casing that knows the ASCII letters only.\<close>

definition asciiToUpperCase :: "js_string \<Rightarrow> js_string" where
  "asciiToUpperCase s = map asciiUpper s"

text \<open>A manager that was given three frames and then the named loop discipline.\<close>

definition threeFrames :: "string \<Rightarrow> unit frameManager" where
  "threeFrames mode = setLoopMode mode (setFrames [(), (), ()] new_FrameManager)"

section \<open>Predicates used in the proofs\<close>

text \<open>
  While playing, the host holds exactly the one timer whose handle the manager stores,
  and the handle is not zero; while stopped it holds none.
\<close>

definition timerInv :: "'f frameManager \<Rightarrow> bool" where
  "timerInv s \<longleftrightarrow>
     0 < nextTimerId s \<and>
     (if playing s
      then map (\<lambda>x. Some (fst x)) (intervals s) = [animationTimer s] \<and> animationTimer s \<noteq> Some 0
      else animationTimer s = None \<and> intervals s = [])"

text \<open>The state invariant of the frame index: \<open>0 \<le> index < count\<close>.\<close>

definition indexInRange :: "'f frameManager \<Rightarrow> bool" where
  "indexInRange s \<longleftrightarrow>
     js_le (Num 0) (currentFrame s) \<and> js_lt (currentFrame s) (Num (frameCount s))"

text \<open>
  A character fits a slot of the identifier template: a hexadecimal digit for \<open>x\<close>,
  one of 8, 9, a, b for \<open>y\<close>, the template's own character otherwise.
\<close>

definition slotOK :: "char \<Rightarrow> char \<Rightarrow> bool" where
  "slotOK t c =
     (if t = CHR ''x'' then c \<in> set ''0123456789abcdef''
      else if t = CHR ''y'' then c \<in> set ''89ab''
      else c = t)"

text \<open>The frames that the loop builds from files that all decode, numbered from \<open>i\<close>.\<close>

fun framesOf :: "nat \<Rightarrow> frame_file list \<Rightarrow> frame list" where
  "framesOf i [] = []"
| "framesOf i (f # fs) =
     (case f_image f of None \<Rightarrow> [] | Some img \<Rightarrow> mkFrame i f img # framesOf (Suc i) fs)"

text \<open>Playing under \<open>once\<close> at index \<open>k\<close> with the single timer \<open>t\<close>.\<close>

definition onceRunning :: "'f frameManager \<Rightarrow> nat \<Rightarrow> int \<Rightarrow> bool" where
  "onceRunning s t k \<longleftrightarrow>
     loopMode s = ''once'' \<and> playing s \<and> animationTimer s = Some t \<and> t \<noteq> 0
     \<and> t < nextTimerId s \<and> map fst (intervals s) = [t] \<and> currentFrame s = Num k"

section \<open>Properties of the pixel encoding\<close>

lemma ToInt32_sint: "ToInt32 (sint w) = w"
  by (simp add: ToInt32_def)

lemma rgbToDword_word:
  "rgbToDword r g b = sint (word_of_int ((push_bit 16 b OR push_bit 8 g) OR r) :: 32 word)"
  by (simp add: rgbToDword_def js_or_def js_shl_def ToInt32_sint)
     (simp add: ToInt32_def word_wi_log_defs push_bit_of_int flip: of_int_push_bit)

text \<open>As long as the channels are small enough the 32-bit result does not wrap.\<close>

lemma rgbToDword_no_wrap:
  assumes "0 \<le> r" "r < 2 ^ 31" "0 \<le> g" "g < 2 ^ 23" "0 \<le> b" "b < 2 ^ 15"
  shows "rgbToDword r g b = (push_bit 16 b OR push_bit 8 g) OR r"
proof -
  have b: "push_bit 16 b < 2 ^ 31" "0 \<le> push_bit 16 b"
    using assms by (simp_all add: push_bit_eq_mult)
  have g: "push_bit 8 g < 2 ^ 31" "0 \<le> push_bit 8 g"
    using assms by (simp_all add: push_bit_eq_mult)
  have "push_bit 16 b OR push_bit 8 g < 2 ^ 31"
    using b g by (intro OR_upper) simp_all
  then have lt: "(push_bit 16 b OR push_bit 8 g) OR r < 2 ^ 31"
    using b g assms by (intro OR_upper) simp_all
  have ge: "0 \<le> (push_bit 16 b OR push_bit 8 g) OR r"
    using b g assms by simp
  have ge': "- (2 ^ 31) \<le> (push_bit 16 b OR push_bit 8 g) OR r"
    by (rule order_trans [OF _ ge]) simp
  show ?thesis
    unfolding rgbToDword_word using lt ge'
    by (simp only: sint_sbintrunc') (rule signed_take_bit_int_eq_self, simp_all)
qed

lemma push_bit_or_low:
  fixes x y :: int
  assumes "0 \<le> x" "x < 2 ^ n"
  shows "push_bit n y OR x = 2 ^ n * y + x"
proof -
  have x: "x = take_bit n x"
    using assms by (simp add: take_bit_int_eq_self)
  have "push_bit n y + x = push_bit n y OR x"
  proof (rule disjunctive_add)
    fix k
    show "\<not> bit (push_bit n y) k \<or> \<not> bit x k"
      by (subst x) (auto simp add: bit_push_bit_iff bit_take_bit_iff)
  qed
  then have "push_bit n y OR x = push_bit n y + x"
    by (rule sym)
  then show ?thesis
    by (simp only: push_bit_eq_mult mult.commute)
qed

lemma channel_fields:
  fixes r g b :: int
  assumes "0 \<le> r" "r < 2 ^ 8" "0 \<le> g" "g < 2 ^ 8"
  shows "(push_bit 16 b OR push_bit 8 g) OR r = r + 256 * g + 65536 * b"
proof -
  have "push_bit 16 b OR push_bit 8 g = push_bit 8 (push_bit 8 b OR g)"
    by (simp add: push_bit_or)
  also have "\<dots> OR r = 2 ^ 8 * (push_bit 8 b OR g) + r"
    using assms by (intro push_bit_or_low) simp_all
  also have "push_bit 8 b OR g = 2 ^ 8 * b + g"
    using assms by (intro push_bit_or_low) simp_all
  finally show ?thesis by simp
qed

lemma rgbToDword_bytes:
  fixes r g b :: "8 word"
  shows "rgbToDword (uint r) (uint g) (uint b) = uint r + 256 * uint g + 65536 * uint b"
proof -
  have r: "0 \<le> uint r" "uint r < 2 ^ 8" and g: "0 \<le> uint g" "uint g < 2 ^ 8"
    and b: "0 \<le> uint b" "uint b < 2 ^ 8"
    using uint_bounded [of r] uint_bounded [of g] uint_bounded [of b] by simp_all
  have "rgbToDword (uint r) (uint g) (uint b)
          = (push_bit 16 (uint b) OR push_bit 8 (uint g)) OR uint r"
    using r g b by (intro rgbToDword_no_wrap) simp_all
  also have "\<dots> = uint r + 256 * uint g + 65536 * uint b"
    using r g by (rule channel_fields)
  finally show ?thesis .
qed

lemma low_part:
  fixes x y m :: int
  assumes "0 \<le> x" "x < m"
  shows "(x + m * y) mod m = x" and "(x + m * y) div m = y"
  using assms by (simp_all add: div_pos_pos_trivial)

lemma packed_fields:
  fixes r g b :: int
  assumes "0 \<le> r" "r < 256" "0 \<le> g" "g < 256" "0 \<le> b" "b < 256"
  shows "(r + 256 * g + 65536 * b) mod 256 = r"
    and "(r + 256 * g + 65536 * b) div 256 mod 256 = g"
    and "(r + 256 * g + 65536 * b) div 65536 mod 256 = b"
    and "(r + 256 * g + 65536 * b) div 16777216 = 0"
proof -
  have e1: "r + 256 * g + 65536 * b = r + 256 * (g + 256 * b)" by simp
  show "(r + 256 * g + 65536 * b) mod 256 = r"
    unfolding e1 using assms by (intro low_part)
  have d1: "(r + 256 * (g + 256 * b)) div 256 = g + 256 * b"
    using assms by (intro low_part)
  show "(r + 256 * g + 65536 * b) div 256 mod 256 = g"
    unfolding e1 d1 using assms by (intro low_part)
  have "0 \<le> r + 256 * g" "r + 256 * g < 65536" using assms by simp_all
  then have d2: "((r + 256 * g) + 65536 * b) div 65536 = b"
    by (intro low_part)
  show "(r + 256 * g + 65536 * b) div 65536 mod 256 = b"
    unfolding d2 using assms by simp
  have "0 \<le> r + 256 * g + 65536 * b" "r + 256 * g + 65536 * b < 16777216"
    using assms by simp_all
  then show "(r + 256 * g + 65536 * b) div 16777216 = 0"
    by (rule div_pos_pos_trivial)
qed

text \<open>
  C1. For a sample of four 8-bit channels, the pixel that \<open>convertToPixelArray\<close>
  builds carries the word with red in bits 0-7, green in bits 8-15, blue in bits 16-23
  and bits 24-31 zero; the word does not depend on the alpha channel.
\<close>

theorem encode_layout:
  fixes r g b a a' :: "8 word"
  shows "px_dword (hd (convertPixels [r, g, b, a])) = uint r + 256 * uint g + 65536 * uint b
       \<and> take_bit 8 (px_dword (hd (convertPixels [r, g, b, a]))) = uint r
       \<and> take_bit 8 (drop_bit 8 (px_dword (hd (convertPixels [r, g, b, a])))) = uint g
       \<and> take_bit 8 (drop_bit 16 (px_dword (hd (convertPixels [r, g, b, a])))) = uint b
       \<and> drop_bit 24 (px_dword (hd (convertPixels [r, g, b, a]))) = 0
       \<and> px_dword (hd (convertPixels [r, g, b, a])) = px_dword (hd (convertPixels [r, g, b, a']))"
proof -
  have r: "0 \<le> uint r" "uint r < 256" and g: "0 \<le> uint g" "uint g < 256"
    and b: "0 \<le> uint b" "uint b < 256"
    using uint_bounded [of r] uint_bounded [of g] uint_bounded [of b] by simp_all
  have d: "px_dword (hd (convertPixels [r, g, b, a])) = uint r + 256 * uint g + 65536 * uint b"
    for a :: "8 word"
    by (simp add: rgbToDword_bytes)
  have p8: "(2::int) ^ 8 = 256" and p16: "(2::int) ^ 16 = 65536"
    and p24: "(2::int) ^ 24 = 16777216"
    by simp_all
  have "take_bit 8 (uint r + 256 * uint g + 65536 * uint b) = uint r"
    unfolding take_bit_eq_mod p8 by (rule packed_fields [OF r g b])
  moreover have "take_bit 8 (drop_bit 8 (uint r + 256 * uint g + 65536 * uint b)) = uint g"
    unfolding take_bit_eq_mod drop_bit_eq_div p8 by (rule packed_fields [OF r g b])
  moreover have "take_bit 8 (drop_bit 16 (uint r + 256 * uint g + 65536 * uint b)) = uint b"
    unfolding take_bit_eq_mod drop_bit_eq_div p8 p16 by (rule packed_fields [OF r g b])
  moreover have "drop_bit 24 (uint r + 256 * uint g + 65536 * uint b) = 0"
    unfolding drop_bit_eq_div p24 by (rule packed_fields [OF r g b])
  ultimately show ?thesis
    unfolding d by simp
qed

section \<open>Brightness above 100 percent\<close>

lemma roundHalfEven_error: "\<bar>of_int (roundHalfEven q) - q\<bar> \<le> 1 / 2"
proof -
  have "of_int \<lfloor>q\<rfloor> \<le> q" "q < of_int \<lfloor>q\<rfloor> + 1"
    by linarith+
  then show ?thesis
    by (auto simp add: roundHalfEven_def Let_def)
qed

lemma roundHalfEven_nonneg: "0 \<le> q \<Longrightarrow> 0 \<le> roundHalfEven q"
  by (auto simp add: roundHalfEven_def Let_def)


lemma powi_nat: "0 \<le> k \<Longrightarrow> (2::rat) powi k = 2 ^ nat k"
  by (simp add: power_int_def)

lemma binade_lower:
  assumes "0 < x"
  shows "2 powi binade x \<le> x"
proof -
  obtain a b where q: "quotient_of x = (a, b)"
    by (cases "quotient_of x")
  have b: "0 < b" and x: "x = of_int a / of_int b"
    using quotient_of_denom_pos [OF q] quotient_of_div [OF q] by simp_all
  have a: "0 < a"
    using assms b unfolding x by (simp add: zero_less_divide_iff)
  let ?e0 = "bitlen a - bitlen b"
  show ?thesis
  proof (cases "x < 2 powi ?e0")
    case False
    then show ?thesis by (simp add: binade_def q)
  next
    case True
    have la: "(2::int) ^ nat (bitlen a - 1) \<le> a" and lb: "b < 2 ^ nat (bitlen b)"
      using bitlen_bounds [OF a] bitlen_bounds [OF b] by simp_all
    have la': "(2::rat) ^ nat (bitlen a - 1) \<le> of_int a"
      using la by (metis of_int_le_iff of_int_numeral of_int_power)
    have lb': "of_int b \<le> (2::rat) ^ nat (bitlen b)"
      using lb by (metis less_imp_le of_int_le_iff of_int_numeral of_int_power)
    have ge: "1 \<le> bitlen a" "0 \<le> bitlen b"
      using a by (simp_all add: bitlen_alt_def)
    have "?e0 - 1 = (bitlen a - 1) - bitlen b"
      by simp
    then have "2 powi (?e0 - 1) = (2::rat) powi (bitlen a - 1) / 2 powi bitlen b"
      by (simp only: power_int_diff [of "2::rat", simplified])
    also have "\<dots> = 2 ^ nat (bitlen a - 1) / 2 ^ nat (bitlen b)"
      using ge by (simp add: powi_nat)
    also have "\<dots> \<le> of_int a / of_int b"
      using la' lb' a b by (intro frac_le) simp_all
    finally have "2 powi (?e0 - 1) \<le> x"
      unfolding x .
    moreover have "binade x = ?e0 - 1"
      using True by (simp add: binade_def q)
    ultimately show ?thesis
      by simp
  qed
qed

lemma toDouble_error:
  assumes "0 < x"
  shows "\<bar>toDouble x - x\<bar> \<le> x / 2 ^ 53"
proof -
  let ?e = "binade x"
  let ?q = "x * 2 powi (52 - ?e)"
  let ?n = "roundHalfEven ?q"
  have p: "(0::rat) < 2 powi (?e - 52)"
    by simp
  have inv: "2 powi (52 - ?e) * 2 powi (?e - 52) = (1::rat)"
    by (simp add: power_int_diff)
  have t: "toDouble x = of_int ?n * 2 powi (?e - 52)"
    using assms by (simp add: toDouble_def Let_def)
  have "toDouble x - x = (of_int ?n - ?q) * 2 powi (?e - 52)"
    unfolding t using inv by (simp add: algebra_simps)
  then have "\<bar>toDouble x - x\<bar> = \<bar>of_int ?n - ?q\<bar> * 2 powi (?e - 52)"
    using p by (simp add: abs_mult)
  also have "\<dots> \<le> (1 / 2) * 2 powi (?e - 52)"
    using roundHalfEven_error [of ?q] p by (intro mult_right_mono) simp_all
  also have "\<dots> = 2 powi ?e / 2 ^ 53"
    by (simp add: power_int_diff)
  also have "\<dots> \<le> x / 2 ^ 53"
    using binade_lower [OF assms] by (intro divide_right_mono) simp_all
  finally show ?thesis .
qed


lemma toDouble_close:
  assumes "0 \<le> x"
  shows "\<bar>toDouble x - x\<bar> \<le> x / 2 ^ 53"
proof (cases "x = 0")
  case True
  then show ?thesis by (simp add: toDouble_def)
next
  case False
  with assms have "0 < x" by simp
  then show ?thesis by (rule toDouble_error)
qed

lemma scaled_close:
  assumes "0 \<le> c" "c \<le> 255" "0 \<le> p" "p \<le> 12800"
  shows "0 \<le> Math_round (toDouble (of_int c * toDouble (of_int p / 100))) \<and> Math_round (toDouble (of_int c * toDouble (of_int p / 100))) < 2 ^ 15
       \<and> rat_of_int c * rat_of_int p / 100 - 1 < rat_of_int (Math_round (toDouble (of_int c * toDouble (of_int p / 100))))
       \<and> rat_of_int (Math_round (toDouble (of_int c * toDouble (of_int p / 100)))) < rat_of_int c * rat_of_int p / 100 + 1"
proof -
  define A :: rat where "A = of_int p / 100"
  define s where "s = toDouble A"
  define x where "x = of_int c * s"
  define y where "y = toDouble x"
  define C :: rat where "C = of_int c"
  have C: "0 \<le> C" "C \<le> 255"
    using assms(1,2) by (simp_all add: C_def)
  have A: "0 \<le> A" "A \<le> 128"
    using assms(3,4) by (simp_all add: A_def)
  have k: "(2::rat) ^ 53 = 9007199254740992"
    by simp
  have sA: "\<bar>s - A\<bar> \<le> A / 2 ^ 53"
    unfolding s_def using A(1) by (rule toDouble_close)
  moreover have "A / 2 ^ 53 \<le> 128 / 2 ^ 53"
    using A(2) by (intro divide_right_mono) simp_all
  ultimately have sA': "\<bar>s - A\<bar> \<le> 128 / 2 ^ 53"
    by linarith
  have s0: "0 \<le> s"
    using sA A(1) unfolding k by linarith
  have x0: "0 \<le> x"
    unfolding x_def C_def [symmetric] using C(1) s0 by simp
  have "C * A \<le> 255 * 128"
    using C A by (intro mult_mono) simp_all
  then have E: "C * A \<le> 32640" "0 \<le> C * A"
    using C A by simp_all
  have "\<bar>x - C * A\<bar> = C * \<bar>s - A\<bar>"
    unfolding x_def C_def [symmetric] using C(1) by (simp add: abs_mult flip: right_diff_distrib)
  also have "\<dots> \<le> 255 * (128 / 2 ^ 53)"
    using C sA' by (intro mult_mono) simp_all
  finally have xE: "\<bar>x - C * A\<bar> \<le> 255 * (128 / 2 ^ 53)" .
  then have xb: "x \<le> 32641"
    using E(1) unfolding k by linarith
  have "\<bar>y - x\<bar> \<le> x / 2 ^ 53"
    unfolding y_def using x0 by (rule toDouble_close)
  moreover have "x / 2 ^ 53 \<le> 32641 / 2 ^ 53"
    using xb by (intro divide_right_mono) simp_all
  ultimately have yx: "\<bar>y - x\<bar> \<le> 32641 / 2 ^ 53"
    by linarith
  have yE: "\<bar>y - C * A\<bar> \<le> 1 / 4"
    using xE yx unfolding k by linarith
  have r: "Math_round (toDouble (of_int c * toDouble (of_int p / 100))) = \<lfloor>y + 1 / 2\<rfloor>"
    by (simp add: Math_round_def y_def x_def s_def A_def)
  have fl: "of_int \<lfloor>y + 1 / 2\<rfloor> \<le> y + 1 / 2" "y + 1 / 2 < of_int \<lfloor>y + 1 / 2\<rfloor> + 1"
    by linarith+
  have CA: "C * A = rat_of_int c * rat_of_int p / 100"
    by (simp add: C_def A_def)
  have lo: "C * A - 1 < rat_of_int (Math_round (toDouble (of_int c * toDouble (of_int p / 100))))" and hi: "rat_of_int (Math_round (toDouble (of_int c * toDouble (of_int p / 100)))) < C * A + 1"
    unfolding r using fl yE by linarith+
  have "- 1 < rat_of_int (Math_round (toDouble (of_int c * toDouble (of_int p / 100))))"
    using lo E(2) by linarith
  then have n: "0 \<le> Math_round (toDouble (of_int c * toDouble (of_int p / 100)))"
    by simp
  have "rat_of_int (Math_round (toDouble (of_int c * toDouble (of_int p / 100)))) < 32768"
    using hi E(1) by linarith
  then have u: "Math_round (toDouble (of_int c * toDouble (of_int p / 100))) < 2 ^ 15"
    by simp
  show ?thesis
    using n u lo hi unfolding CA by simp
qed


lemma packed_bits:
  fixes r g b :: int
  assumes "0 \<le> r" "r < 2 ^ 15" "0 \<le> g" "g < 2 ^ 15"
  shows "drop_bit 24 ((push_bit 16 b OR push_bit 8 g) OR r) = drop_bit 8 b"
    and "take_bit 8 (drop_bit 16 ((push_bit 16 b OR push_bit 8 g) OR r)) = take_bit 8 (b OR drop_bit 8 g)"
    and "take_bit 8 (drop_bit 8 ((push_bit 16 b OR push_bit 8 g) OR r)) = take_bit 8 (g OR drop_bit 8 r)"
    and "take_bit 8 ((push_bit 16 b OR push_bit 8 g) OR r) = take_bit 8 r"
proof -
  have r: "drop_bit 16 r = 0" "drop_bit 24 r = 0" and g: "drop_bit 16 g = 0"
    using assms by (simp_all add: drop_bit_eq_div div_pos_pos_trivial)
  show "drop_bit 24 ((push_bit 16 b OR push_bit 8 g) OR r) = drop_bit 8 b"
    by (simp add: drop_bit_or drop_bit_push_bit r g)
  show "take_bit 8 (drop_bit 16 ((push_bit 16 b OR push_bit 8 g) OR r)) = take_bit 8 (b OR drop_bit 8 g)"
    by (simp add: drop_bit_or drop_bit_push_bit r g)
  show "take_bit 8 (drop_bit 8 ((push_bit 16 b OR push_bit 8 g) OR r)) = take_bit 8 (g OR drop_bit 8 r)"
    by (simp add: drop_bit_or drop_bit_push_bit take_bit_or take_bit_push_bit)
  show "take_bit 8 ((push_bit 16 b OR push_bit 8 g) OR r) = take_bit 8 r"
    by (simp add: take_bit_or take_bit_push_bit)
qed

lemma scalePixel_channels:
  "px_r (scalePixel s q) = Math_round (toDouble (of_int (px_r q) * s))"
  "px_g (scalePixel s q) = Math_round (toDouble (of_int (px_g q) * s))"
  "px_b (scalePixel s q) = Math_round (toDouble (of_int (px_b q) * s))"
  "px_a (scalePixel s q) = px_a q"
  "px_dword (scalePixel s q) =
     rgbToDword (px_r (scalePixel s q)) (px_g (scalePixel s q)) (px_b (scalePixel s q))"
  by (simp_all add: scalePixel_def)

lemma applyBrightness_map:
  "applyBrightness pd p = map (scalePixel (toDouble (of_int p / 100))) (pd_pixels pd)"
  by (simp add: applyBrightness_def Let_def)

lemma overflow_run:
  "applyBrightness overflowData 200 =
     [\<lparr>px_r = 510, px_g = 0, px_b = 510, px_a = 255, px_dword = 33423870\<rparr>]"
  by code_simp

text \<open>
  The double product decides a tie: 150 at 201 percent is \<open>301.49999999999994\<close> as a
  double and rounds to 301, where the exact product 301.5 would round to 302; 50 at 29
  percent rounds to 14.
\<close>

lemma tie_example:
  "map (\<lambda>q. (px_r q, px_g q, px_b q))
     (applyBrightness \<lparr>pd_width = 1, pd_height = 1,
        pd_pixels = [\<lparr>px_r = 150, px_g = 50, px_b = 0, px_a = 255, px_dword = 12950\<rparr>]\<rparr> 201)
     = [(301, 100, 0)]"
  "map (\<lambda>q. (px_r q, px_g q, px_b q))
     (applyBrightness \<lparr>pd_width = 1, pd_height = 1,
        pd_pixels = [\<lparr>px_r = 50, px_g = 150, px_b = 255, px_a = 255, px_dword = 16750130\<rparr>]\<rparr> 29)
     = [(14, 44, 74)]"
  by code_simp+

lemma scaled_over:
  assumes "0 \<le> c" "c \<le> 255" "0 \<le> p" "p \<le> 12800" "25600 \<le> c * p"
  shows "255 < Math_round (toDouble (of_int c * toDouble (of_int p / 100)))"
proof -
  have "rat_of_int 25600 \<le> rat_of_int (c * p)"
    using assms(5) by (simp only: of_int_le_iff)
  then have "256 \<le> rat_of_int c * rat_of_int p / 100"
    by simp
  then have "255 < rat_of_int (Math_round (toDouble (of_int c * toDouble (of_int p / 100))))"
    using scaled_close [OF assms(1-4)] by linarith
  then show ?thesis
    by simp
qed

text \<open>
  C7 (as amended). For every pixel with 8-bit channels and every brightness from 0 to
  12800 percent, each scaled channel is the rounded double product: it differs from
  channel times percent over 100 by less than 1 and is not clamped, so it exceeds 255 as
  soon as the product reaches 256. The packing has no mask: the word is
  \<open>(b' << 16) | (g' << 8) | r'\<close> of the scaled channels as they are. The bits of a
  channel from 256 upwards are kept and land in the next field: those of red in the green
  field, those of green in the blue field, those of blue in bits 24-31, which are then
  not zero. (Up to 12800 percent every scaled channel is below \<open>2^15\<close> and the 32-bit
  word does not wrap.)
\<close>

theorem brightness_unmasked:
  fixes q' :: pixel
  assumes "q \<in> set (pd_pixels pd)"
    and "0 \<le> px_r q" "px_r q \<le> 255" "0 \<le> px_g q" "px_g q \<le> 255" "0 \<le> px_b q" "px_b q \<le> 255"
    and "0 \<le> p" "p \<le> 12800"
  defines "q' \<equiv> scalePixel (toDouble (of_int p / 100)) q"
  shows "q' \<in> set (applyBrightness pd p)
       \<and> \<bar>rat_of_int (px_r q') - rat_of_int (px_r q) * rat_of_int p / 100\<bar> < 1
       \<and> \<bar>rat_of_int (px_g q') - rat_of_int (px_g q) * rat_of_int p / 100\<bar> < 1
       \<and> \<bar>rat_of_int (px_b q') - rat_of_int (px_b q) * rat_of_int p / 100\<bar> < 1
       \<and> (25600 \<le> px_r q * p \<longrightarrow> 255 < px_r q')
       \<and> (25600 \<le> px_g q * p \<longrightarrow> 255 < px_g q')
       \<and> (25600 \<le> px_b q * p \<longrightarrow> 255 < px_b q')
       \<and> px_dword q' = (push_bit 16 (px_b q') OR push_bit 8 (px_g q')) OR px_r q'
       \<and> drop_bit 24 (px_dword q') = drop_bit 8 (px_b q')
       \<and> (255 < px_b q' \<longrightarrow> drop_bit 24 (px_dword q') \<noteq> 0)
       \<and> take_bit 8 (drop_bit 16 (px_dword q')) = take_bit 8 (px_b q' OR drop_bit 8 (px_g q'))
       \<and> take_bit 8 (drop_bit 8 (px_dword q')) = take_bit 8 (px_g q' OR drop_bit 8 (px_r q'))
       \<and> take_bit 8 (px_dword q') = take_bit 8 (px_r q')"
proof -
  note cr = scaled_close [OF assms(2,3,8,9)]
  note cg = scaled_close [OF assms(4,5,8,9)]
  note cb = scaled_close [OF assms(6,7,8,9)]
  have r: "0 \<le> px_r q'" "px_r q' < 2 ^ 15"
    and g: "0 \<le> px_g q'" "px_g q' < 2 ^ 15"
    and b: "0 \<le> px_b q'" "px_b q' < 2 ^ 15"
    unfolding q'_def scalePixel_channels using cr cg cb by simp_all
  have near: "\<bar>rat_of_int (px_r q') - rat_of_int (px_r q) * rat_of_int p / 100\<bar> < 1"
    "\<bar>rat_of_int (px_g q') - rat_of_int (px_g q) * rat_of_int p / 100\<bar> < 1"
    "\<bar>rat_of_int (px_b q') - rat_of_int (px_b q) * rat_of_int p / 100\<bar> < 1"
    unfolding q'_def scalePixel_channels using cr cg cb by linarith+
  have over: "25600 \<le> px_r q * p \<longrightarrow> 255 < px_r q'"
    "25600 \<le> px_g q * p \<longrightarrow> 255 < px_g q'"
    "25600 \<le> px_b q * p \<longrightarrow> 255 < px_b q'"
    unfolding q'_def scalePixel_channels
    using scaled_over [OF assms(2,3,8,9)] scaled_over [OF assms(4,5,8,9)]
      scaled_over [OF assms(6,7,8,9)] by simp_all
  have d: "px_dword q' = (push_bit 16 (px_b q') OR push_bit 8 (px_g q')) OR px_r q'"
    unfolding q'_def scalePixel_channels(5) unfolding q'_def [symmetric]
    using r g b by (intro rgbToDword_no_wrap) simp_all
  have m: "q' \<in> set (applyBrightness pd p)"
    using assms(1) by (simp add: applyBrightness_map q'_def)
  have hi: "drop_bit 8 (px_b q') \<noteq> 0" if "255 < px_b q'"
  proof -
    have "1 \<le> px_b q' div 256" using that by simp
    then show ?thesis by (simp add: drop_bit_eq_div)
  qed
  have bits: "drop_bit 24 (px_dword q') = drop_bit 8 (px_b q')"
    "take_bit 8 (drop_bit 16 (px_dword q')) = take_bit 8 (px_b q' OR drop_bit 8 (px_g q'))"
    "take_bit 8 (drop_bit 8 (px_dword q')) = take_bit 8 (px_g q' OR drop_bit 8 (px_r q'))"
    "take_bit 8 (px_dword q') = take_bit 8 (px_r q')"
    unfolding d by (rule packed_bits [OF r g])+
  show ?thesis
    using m near over d bits hi by simp
qed

theorem brightness_unmasked_witness:
  "scalePixel (toDouble (of_int 200 / 100)) overflowPixel \<in> set (applyBrightness overflowData 200)
   \<and> 255 < px_b (scalePixel (toDouble (of_int 200 / 100)) overflowPixel)
   \<and> drop_bit 24 (px_dword (scalePixel (toDouble (of_int 200 / 100)) overflowPixel)) \<noteq> 0"
proof -
  have h: "overflowPixel \<in> set (pd_pixels overflowData)"
    "0 \<le> px_r overflowPixel" "px_r overflowPixel \<le> 255"
    "0 \<le> px_g overflowPixel" "px_g overflowPixel \<le> 255"
    "0 \<le> px_b overflowPixel" "px_b overflowPixel \<le> 255"
    "0 \<le> (200::int)" "(200::int) \<le> 12800"
    by (simp_all add: overflowData_def overflowPixel_def)
  have big: "25600 \<le> px_b overflowPixel * 200"
    by (simp add: overflowPixel_def)
  from brightness_unmasked [OF h] big show ?thesis
    by blast
qed

text \<open>
  At 200 percent the pixel (255, 0, 255) gets the word \<open>0x01FE01FE\<close>: bits 24-31
  are not zero, and the green field holds 1 although the green channel is 0.
\<close>

theorem brightness_masked_counterexample:
  "\<not> (drop_bit 24 (px_dword (hd (applyBrightness overflowData 200))) = 0
      \<and> take_bit 8 (drop_bit 8 (px_dword (hd (applyBrightness overflowData 200))))
          = take_bit 8 (px_g (hd (applyBrightness overflowData 200))))"
  unfolding overflow_run by (simp add: drop_bit_eq_div)


section \<open>Properties of the frame manager\<close>

lemma filter_single:
  assumes "map fst xs = [t]"
  shows "filter (\<lambda>x. fst x \<noteq> t) xs = []"
  using assms by (cases xs) auto

lemma advance_pingpong:
  assumes "loopMode s = ''pingpong''"
  shows "advanceFrame s = 
     (let s1 = s\<lparr>currentFrame := js_add (currentFrame s) (Num (direction s))\<rparr>;
          s' = (if js_ge (currentFrame s1) (Num (frameCount s1 - 1))
               then s1\<lparr>currentFrame := Num (frameCount s1 - 1), direction := - 1\<rparr>
               else if js_le (currentFrame s1) (Num 0)
               then s1\<lparr>currentFrame := Num 0, direction := 1\<rparr>
               else s1)
      in emit (FrameChange (currentFrame s')) s')"
  using assms by (simp add: advanceFrame_def Let_def)

lemma pingpong_step:
  assumes "loopMode s = ''pingpong''" "currentFrame s = Num i" "direction s = d"
  shows "loopMode (advanceFrame s) = ''pingpong''"
    and "frames (advanceFrame s) = frames s"
    and "currentFrame (advanceFrame s) =
           (if i + d \<ge> frameCount s - 1 then Num (frameCount s - 1)
            else if i + d \<le> 0 then Num 0 else Num (i + d))"
    and "direction (advanceFrame s) =
           (if i + d \<ge> frameCount s - 1 then - 1
            else if i + d \<le> 0 then 1 else d)"
  using assms by (simp_all add: advance_pingpong Let_def emit_def frameCount_def)

lemma pingpong3_step:
  assumes "loopMode s = ''pingpong'' \<and> length (frames s) = 3 \<and> currentFrame s = Num i \<and> direction s = d"
  shows "loopMode (advanceFrame s) = ''pingpong'' \<and> length (frames (advanceFrame s)) = 3
       \<and> currentFrame (advanceFrame s) =
           (if i + d \<ge> 2 then Num 2 else if i + d \<le> 0 then Num 0 else Num (i + d))
       \<and> direction (advanceFrame s) = (if i + d \<ge> 2 then - 1 else if i + d \<le> 0 then 1 else d)"
  using assms pingpong_step [of s i d] by (simp add: frameCount_def)

lemma indicesAfter_6:
  "indicesAfter 6 s =
     [currentFrame (advanceFrame s),
      currentFrame (advanceFrame (advanceFrame s)),
      currentFrame (advanceFrame (advanceFrame (advanceFrame s))),
      currentFrame (advanceFrame (advanceFrame (advanceFrame (advanceFrame s)))),
      currentFrame (advanceFrame (advanceFrame (advanceFrame (advanceFrame (advanceFrame s))))),
      currentFrame (advanceFrame (advanceFrame (advanceFrame (advanceFrame (advanceFrame (advanceFrame s))))))]"
  by (simp add: indicesAfter_def upt_rec numeral_eq_Suc)

lemma pingpong3_indices:
  assumes "length (frames s) = 3" "currentFrame s = Num 0" "direction s = 1"
    "loopMode s = ''pingpong''"
  shows "indicesAfter 6 s = [Num 1, Num 2, Num 1, Num 0, Num 1, Num 2]"
proof -
  have 0: "loopMode s = ''pingpong'' \<and> length (frames s) = 3 \<and> currentFrame s = Num 0 \<and> direction s = 1"
    using assms by simp
  note 1 = pingpong3_step [OF 0, simplified]
  note 2 = pingpong3_step [OF 1, simplified]
  note 3 = pingpong3_step [OF 2, simplified]
  note 4 = pingpong3_step [OF 3, simplified]
  note 5 = pingpong3_step [OF 4, simplified]
  note 6 = pingpong3_step [OF 5, simplified]
  show ?thesis
    unfolding indicesAfter_6 using 1 2 3 4 5 6 by simp
qed

lemma threeFrames_fields:
  "frames (threeFrames mode) = [(), (), ()]" "currentFrame (threeFrames mode) = Num 0"
  "direction (threeFrames mode) = 1" "loopMode (threeFrames mode) = mode"
  "\<not> playing (threeFrames mode)" "intervals (threeFrames mode) = []"
  "nextTimerId (threeFrames mode) = 1"
  by (simp_all add: threeFrames_def setLoopMode_def setFrames_def stop_def new_FrameManager_def)

lemma pingpong3_run:
  "indicesAfter 6 (threeFrames ''pingpong'') = [Num 1, Num 2, Num 1, Num 0, Num 1, Num 2]"
  by (rule pingpong3_indices) (simp_all add: threeFrames_fields)

text \<open>
  C3 (as amended). Under the bounce discipline (\<open>pingpong\<close> in the source) with exactly
  three frames, index 0 and direction +1, the indices seen after each of six successive
  calls of \<open>advanceFrame\<close> are 1, 2, 1, 0, 1, 2: the index turns round at either end
  and does not rest there.
\<close>

theorem bounce_three:
  assumes "length (frames s) = 3" "currentFrame s = Num 0" "direction s = 1"
    "loopMode s = ''pingpong''"
  shows "indicesAfter 6 s = [Num 1, Num 2, Num 1, Num 0, Num 1, Num 2]"
  using assms by (rule pingpong3_indices)

theorem bounce_three_witness:
  "indicesAfter 6 (threeFrames ''pingpong'') = [Num 1, Num 2, Num 1, Num 0, Num 1, Num 2]"
  by (rule bounce_three) (simp_all add: threeFrames_fields)

text \<open>The sequence 1, 2, 2, 1, 0, 0 is not the one the three-frame run produces.\<close>

theorem bounce_three_counterexample:
  "indicesAfter 6 (threeFrames ''pingpong'') \<noteq> [Num 1, Num 2, Num 2, Num 1, Num 0, Num 0]"
  unfolding pingpong3_run by simp

lemma tick_single:
  assumes "map fst (intervals s) = [t]"
  shows "tick s = advanceFrame s"
  using assms by (simp add: tick_def timerFires_def)

lemma tick_none:
  assumes "intervals s = []"
  shows "tick s = s"
  using assms by (simp add: tick_def)

lemma play_starts:
  assumes "frames s \<noteq> []" "\<not> playing s" "intervals s = []"
  shows "play s = s\<lparr>playing := True, animationTimer := Some (nextTimerId s),
                    emitted := emitted s @ [PlayStateChange True],
                    intervals := [(nextTimerId s, fps s)], nextTimerId := Suc (nextTimerId s)\<rparr>"
  using assms by (simp add: play_def emit_def setInterval_def Let_def)

lemma once_tick_inner:
  assumes "onceRunning s t k" "k < frameCount s - 1"
  shows "onceRunning (tick s) t (k + 1)" and "frames (tick s) = frames s"
  using assms
  by (simp_all add: onceRunning_def tick_single advanceFrame_def emit_def Let_def frameCount_def)

lemma once_tick_last:
  assumes "onceRunning s t k" "\<not> k < frameCount s - 1"
  shows "tick s = s\<lparr>playing := False, animationTimer := None, intervals := [],
                     emitted := emitted s @ [PlayStateChange False, FrameChange (Num k)]\<rparr>"
  using assms
  by (simp add: onceRunning_def tick_single advanceFrame_def emit_def Let_def frameCount_def
      stop_def clearInterval_def filter_single)

lemma once_play:
  assumes "frames s \<noteq> []" "\<not> playing s" "intervals s = []" "0 < nextTimerId s"
    "loopMode s = ''once''" "currentFrame s = Num k"
  shows "onceRunning (play s) (nextTimerId s) k" and "frames (play s) = frames s"
  using assms by (simp_all add: play_starts onceRunning_def)

lemma once_ticks:
  assumes "onceRunning s t 0" "n < length (frames s)"
  shows "onceRunning ((tick ^^ n) s) t (int n) \<and> frames ((tick ^^ n) s) = frames s"
  using assms(2)
proof (induction n)
  case 0
  then show ?case using assms(1) by simp
next
  case (Suc n)
  then have ih: "onceRunning ((tick ^^ n) s) t (int n)" "frames ((tick ^^ n) s) = frames s"
    by simp_all
  have "int n < frameCount ((tick ^^ n) s) - 1"
    using Suc.prems ih(2) by (simp add: frameCount_def)
  from once_tick_inner [OF ih(1) this] ih(2) show ?case
    by (simp add: add.commute)
qed

lemma once_completion:
  assumes "frames s \<noteq> []" "currentFrame s = Num 0" "loopMode s = ''once''"
    "\<not> playing s" "intervals s = []" "0 < nextTimerId s"
  shows "playing ((tick ^^ (length (frames s) - 1)) (play s))"
    and "currentFrame ((tick ^^ (length (frames s) - 1)) (play s)) = Num (int (length (frames s)) - 1)"
    and "\<not> playing ((tick ^^ length (frames s)) (play s))"
    and "currentFrame ((tick ^^ length (frames s)) (play s)) = Num (int (length (frames s)) - 1)"
    and "intervals ((tick ^^ length (frames s)) (play s)) = []"
    and "playing (play ((tick ^^ length (frames s)) (play s)))"
    and "length (intervals (play ((tick ^^ length (frames s)) (play s)))) = 1"
    and "\<not> playing (tick (play ((tick ^^ length (frames s)) (play s))))"
    and "currentFrame (tick (play ((tick ^^ length (frames s)) (play s))))
           = Num (int (length (frames s)) - 1)"
proof -
  let ?N = "length (frames s)"
  let ?t = "nextTimerId s"
  let ?a = "(tick ^^ (?N - 1)) (play s)"
  have N: "0 < ?N" using assms(1) by simp
  have run0: "onceRunning (play s) ?t 0" and fr0: "frames (play s) = frames s"
    using once_play [OF assms(1,4,5,6,3,2)] by simp_all
  have "?N - 1 < length (frames (play s))" using N fr0 by simp
  from once_ticks [OF run0 this]
  have a: "onceRunning ?a ?t (int (?N - 1))" and fa: "frames ?a = frames s"
    using fr0 by simp_all
  have idx: "int (?N - 1) = int ?N - 1" using N by (cases ?N) simp_all
  show "playing ?a" using a by (simp add: onceRunning_def)
  show "currentFrame ?a = Num (int ?N - 1)" using a idx by (simp add: onceRunning_def)
  have last: "\<not> int (?N - 1) < frameCount ?a - 1"
    using fa N by (simp add: frameCount_def)
  have step: "(tick ^^ ?N) (play s) = tick ?a"
    using N by (cases ?N) simp_all
  let ?e = "(tick ^^ ?N) (play s)"
  have e: "?e = ?a\<lparr>playing := False, animationTimer := None, intervals := [],
                emitted := emitted ?a @ [PlayStateChange False, FrameChange (Num (int (?N - 1)))]\<rparr>"
    unfolding step by (rule once_tick_last [OF a last])
  show e1: "\<not> playing ?e" by (subst e) simp
  show e2: "currentFrame ?e = Num (int ?N - 1)" using a idx by (subst e) (simp add: onceRunning_def)
  show e3: "intervals ?e = []" by (subst e) simp
  have e4: "frames ?e \<noteq> []" using fa assms(1) by (subst e) simp
  have e5: "0 < nextTimerId ?e" and e6: "loopMode ?e = ''once''"
    using a by (subst e, simp add: onceRunning_def)+
  show "playing (play ?e)" "length (intervals (play ?e)) = 1"
    using play_starts [OF e4 e1 e3] by simp_all
  have r: "onceRunning (play ?e) (nextTimerId ?e) (int ?N - 1)" and fr: "frames (play ?e) = frames ?e"
    using once_play [OF e4 e1 e3 e5 e6 e2] by simp_all
  have fe: "frames ?e = frames s" using fa by (subst e) simp
  have last': "\<not> int ?N - 1 < frameCount (play ?e) - 1"
    using fr fe by (simp add: frameCount_def)
  note once_tick_last [OF r last']
  then show "\<not> playing (tick (play ?e))" "currentFrame (tick (play ?e)) = Num (int ?N - 1)"
    using r by (simp_all add: onceRunning_def)
qed

text \<open>
  C4 (as amended). Under the \<open>once\<close> discipline, started playing at index 0 over
  \<open>N \<ge> 1\<close> frames: after \<open>N - 1\<close> ticks the index is \<open>N - 1\<close> and the manager is
  still playing; the \<open>N\<close>-th tick stops it, the index staying \<open>N - 1\<close> and no timer
  left. From that stopped state \<open>play\<close> does resume: it sets the state to playing and
  starts one timer, and the next tick stops the manager again at index \<open>N - 1\<close>.
\<close>

theorem once_completes:
  assumes "frames s \<noteq> []" "currentFrame s = Num 0" "loopMode s = ''once''"
    "\<not> playing s" "intervals s = []" "0 < nextTimerId s"
  shows "playing ((tick ^^ (length (frames s) - 1)) (play s))
       \<and> currentFrame ((tick ^^ (length (frames s) - 1)) (play s)) = Num (int (length (frames s)) - 1)
       \<and> \<not> playing ((tick ^^ length (frames s)) (play s))
       \<and> currentFrame ((tick ^^ length (frames s)) (play s)) = Num (int (length (frames s)) - 1)
       \<and> intervals ((tick ^^ length (frames s)) (play s)) = []
       \<and> playing (play ((tick ^^ length (frames s)) (play s)))
       \<and> length (intervals (play ((tick ^^ length (frames s)) (play s)))) = 1
       \<and> \<not> playing (tick (play ((tick ^^ length (frames s)) (play s))))
       \<and> currentFrame (tick (play ((tick ^^ length (frames s)) (play s))))
           = Num (int (length (frames s)) - 1)"
  by (intro conjI once_completion [OF assms])

theorem once_completes_witness:
  "playing ((tick ^^ 2) (play (threeFrames ''once'')))
   \<and> currentFrame ((tick ^^ 2) (play (threeFrames ''once''))) = Num 2
   \<and> \<not> playing ((tick ^^ 3) (play (threeFrames ''once'')))
   \<and> currentFrame ((tick ^^ 3) (play (threeFrames ''once''))) = Num 2
   \<and> playing (play ((tick ^^ 3) (play (threeFrames ''once''))))
   \<and> \<not> playing (tick (play ((tick ^^ 3) (play (threeFrames ''once'')))))"
  using once_completes [of "threeFrames ''once''"]
  by (simp add: threeFrames_fields eval_nat_numeral)

text \<open>
  With three frames the manager is still playing after two ticks, and \<open>play\<close> changes
  the state it is called in after the run has stopped at the end.
\<close>

theorem once_completes_counterexample:
  "\<not> (\<not> playing ((tick ^^ 2) (play (threeFrames ''once'')))
      \<and> currentFrame ((tick ^^ 2) (play (threeFrames ''once''))) = Num 2
      \<and> play ((tick ^^ 3) (play (threeFrames ''once''))) = (tick ^^ 3) (play (threeFrames ''once'')))"
  using once_completion(1) [of "threeFrames ''once''"]
  by (simp add: threeFrames_fields eval_nat_numeral)

lemma handle_single:
  assumes "map (\<lambda>x. Some (fst x)) xs = [Some t]"
  shows "map fst xs = [t]"
  using assms by (cases xs) auto

lemma timerInv_fields:
  assumes "timerInv s"
  shows "timerInv (s\<lparr>frames := fs\<rparr>)" "timerInv (s\<lparr>currentFrame := c\<rparr>)"
    "timerInv (s\<lparr>fps := r\<rparr>)" "timerInv (s\<lparr>loopMode := m\<rparr>)"
    "timerInv (s\<lparr>direction := d\<rparr>)" "timerInv (s\<lparr>emitted := es\<rparr>)"
  using assms by (simp_all add: timerInv_def)

lemma timerInv_emit: "timerInv s \<Longrightarrow> timerInv (emit e s)"
  by (simp add: emit_def timerInv_fields)

lemma timerInv_stop:
  assumes "timerInv s"
  shows "timerInv (stop s)" and "\<not> playing (stop s)"
  using assms
  by (auto simp add: timerInv_def stop_def emit_def clearInterval_def Let_def filter_single
      handle_single split: option.splits)

lemma timerInv_play:
  assumes "timerInv s"
  shows "timerInv (play s)"
  using assms
  by (auto simp add: timerInv_def play_def emit_def setInterval_def Let_def split: option.splits)

lemma timerInv_setFrames: "timerInv s \<Longrightarrow> timerInv (setFrames fs s)"
  by (simp add: setFrames_def timerInv_stop timerInv_fields)

lemma timerInv_setFPS: "timerInv s \<Longrightarrow> timerInv (setFPS r s)"
  by (simp add: setFPS_def Let_def timerInv_stop timerInv_play timerInv_fields)

lemma timerInv_setLoopMode: "timerInv s \<Longrightarrow> timerInv (setLoopMode m s)"
  by (simp add: setLoopMode_def timerInv_fields)

lemma timerInv_advanceFrame: "timerInv s \<Longrightarrow> timerInv (advanceFrame s)"
  by (simp add: advanceFrame_def Let_def timerInv_stop timerInv_emit timerInv_fields)

lemma timerInv_goToFrame: "timerInv s \<Longrightarrow> timerInv (goToFrame i s)"
  by (simp add: goToFrame_def timerInv_emit timerInv_fields)

lemma timerInv_nextFrame: "timerInv s \<Longrightarrow> timerInv (nextFrame s)"
  by (simp add: nextFrame_def Let_def timerInv_goToFrame)

lemma timerInv_previousFrame: "timerInv s \<Longrightarrow> timerInv (previousFrame s)"
  by (simp add: previousFrame_def Let_def timerInv_goToFrame)

lemma timerInv_destroy: "timerInv s \<Longrightarrow> timerInv (destroy s)"
  by (simp add: destroy_def timerInv_stop timerInv_fields)

lemma timerInv_intervals:
  assumes "timerInv s"
  shows "intervals s = [] \<or> (\<exists>x. intervals s = [x])"
  using assms by (cases "intervals s") (auto simp add: timerInv_def split: if_splits option.splits)

lemma timerInv_tick:
  assumes "timerInv s"
  shows "timerInv (tick s)"
  using timerInv_intervals [OF assms] assms
  by (auto simp add: tick_def timerFires_def timerInv_advanceFrame)

lemma timerInv_perform: "timerInv s \<Longrightarrow> timerInv (perform x s)"
  by (cases x)
     (simp_all add: timerInv_play timerInv_stop timerInv_setFrames timerInv_setFPS
        timerInv_setLoopMode timerInv_goToFrame timerInv_nextFrame timerInv_previousFrame
        timerInv_advanceFrame timerInv_destroy timerInv_tick)

lemma timerInv_run: "timerInv s \<Longrightarrow> timerInv (run xs s)"
  unfolding run_def by (induction xs arbitrary: s) (simp_all add: timerInv_perform)

lemma timerInv_new: "timerInv new_FrameManager"
  by (simp add: timerInv_def new_FrameManager_def)

lemma play_idle:
  assumes "playing s \<or> frames s = []"
  shows "play s = s"
  using assms by (auto simp add: play_def)

lemma run_example:
  "run [SetFrames [(), ()], Play, Play, SetFPS 10, Tick, Play] new_FrameManager =
     \<lparr>frames = [(), ()], currentFrame = Num 1, fps = 10, loopMode = ''loop'', playing = True,
      direction = 1, animationTimer = Some 2,
      emitted = [PlayStateChange True, PlayStateChange False, PlayStateChange True, FrameChange (Num 1)],
      intervals = [(2, 10)], nextTimerId = 3\<rparr>"
  by (simp add: run_def new_FrameManager_def setFrames_def stop_def play_def emit_def
      setInterval_def clearInterval_def setFPS_def tick_def timerFires_def advanceFrame_def
      frameCount_def Let_def)

text \<open>
  C5. In every state that a sequence of public operations and clock ticks reaches from
  a new manager, at most one interval timer is active: exactly one while playing (the
  one whose handle the manager stores), none while stopped. In such a state \<open>play\<close> is a no-op when the manager is already
  playing or has no frames, so it starts no further timer.
\<close>

theorem single_timer:
  "timerInv (run xs new_FrameManager)
   \<and> length (intervals (run xs new_FrameManager)) \<le> 1
   \<and> (playing (run xs new_FrameManager) \<longrightarrow> length (intervals (run xs new_FrameManager)) = 1)
   \<and> (\<not> playing (run xs new_FrameManager) \<longrightarrow> intervals (run xs new_FrameManager) = [])
   \<and> (playing (run xs new_FrameManager) \<or> frames (run xs new_FrameManager) = []
        \<longrightarrow> play (run xs new_FrameManager) = run xs new_FrameManager)"
proof -
  have inv: "timerInv (run xs new_FrameManager)"
    by (rule timerInv_run [OF timerInv_new])
  then have "playing (run xs new_FrameManager) \<longrightarrow> length (map (\<lambda>x. Some (fst x)) (intervals (run xs new_FrameManager))) = 1"
    by (simp add: timerInv_def)
  moreover have "\<not> playing (run xs new_FrameManager) \<longrightarrow> intervals (run xs new_FrameManager) = []"
    using inv by (simp add: timerInv_def)
  ultimately show ?thesis
    using inv play_idle [of "run xs new_FrameManager"]
    by (cases "playing (run xs new_FrameManager)") auto
qed

theorem single_timer_witness:
  "playing (run [SetFrames [(), ()], Play, Play, SetFPS 10, Tick, Play] new_FrameManager)
   \<and> length (intervals (run [SetFrames [(), ()], Play, Play, SetFPS 10, Tick, Play] new_FrameManager)) = 1
   \<and> play (run [SetFrames [(), ()], Play, Play, SetFPS 10, Tick, Play] new_FrameManager)
       = run [SetFrames [(), ()], Play, Play, SetFPS 10, Tick, Play] new_FrameManager"
  using single_timer [of "[SetFrames [(), ()], Play, Play, SetFPS 10, Tick, Play]"]
  by (simp add: run_example)

text \<open>
  Once the index is \<open>NaN\<close>, \<open>previousFrame\<close> on an empty sequence passes the guard as
  well and emits a notification.
\<close>

lemma previousFrame_empty_NaN:
  assumes "frames s = []" "currentFrame s = NaN"
  shows "previousFrame s = s\<lparr>emitted := emitted s @ [FrameChange NaN]\<rparr>"
  using assms by (simp add: previousFrame_def goToFrame_def emit_def Let_def)

text \<open>
  C10. With an empty frame sequence, \<open>previousFrame\<close> changes nothing when the index
  is a number (from index 0 the wrapped index is \<open>-1\<close>, which the guard of
  \<open>goToFrame\<close> rejects). \<open>nextFrame\<close> computes a remainder by zero, \<open>NaN\<close>, which
  the guard does not reject: the index becomes \<open>NaN\<close>, a frame-change notification
  carrying \<open>NaN\<close> is emitted, and \<open>0 \<le> index < count\<close> does not hold afterwards.
\<close>

theorem nav_empty:
  assumes "frames s = []"
  shows "(\<forall>n. currentFrame s = Num n \<longrightarrow> previousFrame s = s)
       \<and> nextFrame s = s\<lparr>currentFrame := NaN, emitted := emitted s @ [FrameChange NaN]\<rparr>
       \<and> \<not> indexInRange (nextFrame s)"
  using assms
  by (cases "currentFrame s")
     (auto simp add: previousFrame_def nextFrame_def goToFrame_def frameCount_def emit_def
        indexInRange_def Let_def)

theorem nav_empty_witness:
  "previousFrame (new_FrameManager :: unit frameManager) = new_FrameManager
   \<and> currentFrame (nextFrame (new_FrameManager :: unit frameManager)) = NaN
   \<and> emitted (nextFrame (new_FrameManager :: unit frameManager)) = [FrameChange NaN]
   \<and> \<not> indexInRange (nextFrame (new_FrameManager :: unit frameManager))"
proof -
  have e: "frames (new_FrameManager :: unit frameManager) = []"
    and c: "currentFrame (new_FrameManager :: unit frameManager) = Num 0"
    and m: "emitted (new_FrameManager :: unit frameManager) = []"
    by (simp_all add: new_FrameManager_def)
  note n = nav_empty [OF e]
  have 1: "previousFrame (new_FrameManager :: unit frameManager) = new_FrameManager"
    using n c by blast
  have 2: "nextFrame (new_FrameManager :: unit frameManager)
             = new_FrameManager\<lparr>currentFrame := NaN,
                 emitted := emitted (new_FrameManager :: unit frameManager) @ [FrameChange NaN]\<rparr>"
    using n by blast
  have 3: "\<not> indexInRange (nextFrame (new_FrameManager :: unit frameManager))"
    using n by blast
  show ?thesis
    using 1 3 by (simp add: 2 m)
qed

section \<open>Properties of resizing\<close>

lemma reprocessFrames_offsets:
  "reprocessFrames w h tw th mode x y = reprocessFrames w h tw th mode 0 0"
  by (simp add: reprocessFrames_def)

lemma clamp_bounds:
  fixes x w fw :: int
  assumes "w \<le> fw"
  shows "0 \<le> max 0 (min x (fw - w))" "max 0 (min x (fw - w)) \<le> fw - w"
  using assms by simp_all

lemma drawCropOverlay_crop:
  assumes "mode = ''crop-top'' \<or> mode = ''crop-bottom'' \<or> mode = ''crop-center''"
  shows "drawCropOverlay fw fh tw th mode x y =
     Some (max 0 (min ((if mode = ''crop-center'' then (fw - min tw fw) div 2 else 0) + x) (fw - min tw fw)),
           max 0 (min ((if mode = ''crop-top'' then 0
                        else if mode = ''crop-bottom'' then max 0 (fh - min th fh)
                        else (fh - min th fh) div 2) + y) (fh - min th fh)),
           min tw fw, min th fh)"
  using assms by (elim disjE) (simp_all add: drawCropOverlay_def)

lemma drawCropOverlay_clamped:
  assumes "mode = ''crop-top'' \<or> mode = ''crop-bottom'' \<or> mode = ''crop-center''"
  shows "case drawCropOverlay fw fh tw th mode x y of
           None \<Rightarrow> False
         | Some (cx, cy, cw, ch) \<Rightarrow> 0 \<le> cx \<and> cx \<le> fw - cw \<and> 0 \<le> cy \<and> cy \<le> fh - ch"
  unfolding drawCropOverlay_crop [OF assms]
  using clamp_bounds [of "min tw fw" fw] clamp_bounds [of "min th fh" fh]
  by (simp del: max_less_iff_conj min_less_iff_conj)

text \<open>
  C2. The claim is that resampling applies the crop offset to the origin of the source
  rectangle and clamps it. The overlay of the preview does so; the resampling that
  \<open>reprocessFrames\<close> runs does not: for a 4 by 4 frame cut to 2 by 2 in mode
  \<open>crop-top\<close> with offset (1, 1), the exported rectangle starts at (0, 0) and the
  overlay shows (1, 1).
\<close>

theorem resize_drops_offset:
  "reprocessFrames 4 4 2 2 ''crop-top'' 1 1 = (0, 0, 2, 2)
   \<and> drawCropOverlay 4 4 2 2 ''crop-top'' 1 1 = Some (1, 1, 2, 2)"
  by (simp add: reprocessFrames_def processImageWithResize_def drawCropOverlay_def)

section \<open>Properties of name sanitizing\<close>

lemma nameUnit_ascii:
  assumes "nameUnit c"
  shows "unat c < 128" and "asciiUpper c = c"
  using assms by (auto simp add: nameUnit_def asciiUpper_def)

lemma nameUnit_underscore: "nameUnit 95"
  by (simp add: nameUnit_def)

lemma sanitizeName_units: "\<forall>c \<in> set (sanitizeName up name). nameUnit c"
  by (auto simp add: sanitizeName_def nameUnit_underscore)

lemma sanitizeName_replaces:
  "list_all2 (\<lambda>u c. c = (if nameUnit u then u else 95)) (up name) (sanitizeName up name)"
  by (simp add: sanitizeName_def list_all2_map2 list_all2_same)

lemma sanitizeName_ascii:
  assumes "\<forall>s. (\<forall>c \<in> set s. unat c < 128) \<longrightarrow> up s = map asciiUpper s"
    and "\<forall>c \<in> set name. unat c < 128"
  shows "sanitizeName up name = map (\<lambda>c. if nameUnit (asciiUpper c) then asciiUpper c else 95) name"
  using assms by (simp add: sanitizeName_def)

lemma sanitizeName_fixed:
  assumes "\<forall>s. (\<forall>c \<in> set s. unat c < 128) \<longrightarrow> up s = map asciiUpper s"
    and "\<forall>c \<in> set name. nameUnit c"
  shows "sanitizeName up name = name"
proof -
  have low: "\<forall>c \<in> set name. unat c < 128"
    using assms(2) nameUnit_ascii(1) by blast
  have "sanitizeName up name = map (\<lambda>c. if nameUnit (asciiUpper c) then asciiUpper c else 95) name"
    by (rule sanitizeName_ascii [OF assms(1) low])
  also have "\<dots> = name"
    using assms(2) by (intro map_idI) (simp add: nameUnit_ascii(2))
  finally show ?thesis .
qed

lemma default_names:
  "\<forall>c \<in> set (js_str ''MY_ANIMATION''). nameUnit c"
  "\<forall>c \<in> set (js_str ''MY_IMAGE''). nameUnit c"
  by code_simp+

lemma loadLoop_name: "animationName (fst (loadLoop i fs h)) = animationName h"
  by (induction i fs h rule: loadLoop.induct) (auto simp add: addFrame_def split: option.splits)

lemma loadFrames_name:
  "animationName (loadFrames up files h) = animationName h
   \<or> (\<exists>v. animationName (loadFrames up files h) = sanitizeName up v)"
proof -
  obtain h1 err where l: "loadLoop 0 files (h\<lparr>sh_frames := [], fileList := []\<rparr>) = (h1, err)"
    by (cases "loadLoop 0 files (h\<lparr>sh_frames := [], fileList := []\<rparr>)")
  have "animationName h1 = animationName h"
    using loadLoop_name [of 0 files "h\<lparr>sh_frames := [], fileList := []\<rparr>"] l by simp
  then show ?thesis
    by (auto simp add: loadFrames_def l Let_def split: option.splits list.splits)
qed

lemma sequence_names:
  assumes "\<forall>c \<in> set (animationName h). nameUnit c"
  shows "\<forall>c \<in> set (animationName (fold (onSequenceEvent up) evs h)). nameUnit c"
  using assms
proof (induction evs arbitrary: h)
  case Nil
  then show ?case by simp
next
  case (Cons ev evs)
  have "\<forall>c \<in> set (animationName (onSequenceEvent up ev h)). nameUnit c"
  proof (cases ev)
    case (NameEntered v)
    then show ?thesis
      using sanitizeName_units [of up v] by (simp add: animationNameInput_def)
  next
    case (FilesChosen files)
    then show ?thesis
      using loadFrames_name [of up files h] Cons.prems sanitizeName_units [of up] by auto
  qed
  then show ?case
    by (simp add: Cons.IH)
qed

lemma single_names:
  assumes "\<forall>c \<in> set (imageName h). nameUnit c"
  shows "\<forall>c \<in> set (imageName (fold (onSingleEvent up) evs h)). nameUnit c"
  using assms
proof (induction evs arbitrary: h)
  case Nil
  then show ?case by simp
next
  case (Cons ev evs)
  have "\<forall>c \<in> set (imageName (onSingleEvent up ev h)). nameUnit c"
  proof (cases ev)
    case (ImageNameEntered v)
    then show ?thesis
      using sanitizeName_units [of up v] by (simp add: imageNameInput_def)
  next
    case (ImageChosen chosen)
    then show ?thesis
      using Cons.prems sanitizeName_units [of up]
      by (auto simp add: loadImage_def Let_def split: option.splits)
  qed
  then show ?case
    by (simp add: Cons.IH)
qed

lemma exportName_units:
  assumes "\<forall>c \<in> set (animationName h). nameUnit c"
  shows "\<forall>c \<in> set (exportName h). nameUnit c"
  using assms default_names(1) by (simp add: exportName_def)

lemma singleExportName_units:
  assumes "\<forall>c \<in> set (imageName h). nameUnit c"
  shows "\<forall>c \<in> set (singleExportName h). nameUnit c"
  using assms default_names(2) by (simp add: singleExportName_def)


lemma asciiToUpperCase_ascii:
  "\<forall>s. (\<forall>c \<in> set s. unat c < 128) \<longrightarrow> asciiToUpperCase s = map asciiUpper s"
  by (simp add: asciiToUpperCase_def)

lemma sanitizeName_example:
  "sanitizeName asciiToUpperCase (js_str ''frame-01.b'') = js_str ''FRAME_01_B''"
  by code_simp

text \<open>
  C9. Let \<open>toUpperCase\<close> be the host's function, of which only its action on ASCII
  strings is used. For every input string, \<open>sanitizeName\<close> produces a string over the
  units of A-Z, 0-9 and underscore: each unit of the upper-cased input is kept when it is
  one of these and replaced by an underscore otherwise (on an ASCII input, unit by unit
  after mapping a-z to A-Z). \<open>sanitizeName\<close> is idempotent. The name field of either
  handler is written only through \<open>sanitizeName\<close>, so from a field that holds such
  a string (an empty one, for instance) and after any sequence of name entries and file
  loads, the name that the handler passes to the exporter for splicing into the
  declarations is over these units and a fixed point of \<open>sanitizeName\<close>.
\<close>

theorem sanitizeName_idempotent:
  assumes "\<forall>s. (\<forall>c \<in> set s. unat c < 128) \<longrightarrow> toUpperCase s = map asciiUpper s"
  shows "(\<forall>c \<in> set (sanitizeName toUpperCase name). nameUnit c)
       \<and> list_all2 (\<lambda>u c. c = (if nameUnit u then u else 95))
            (toUpperCase name) (sanitizeName toUpperCase name)
       \<and> ((\<forall>c \<in> set name. unat c < 128) \<longrightarrow>
            sanitizeName toUpperCase name =
              map (\<lambda>c. if nameUnit (asciiUpper c) then asciiUpper c else 95) name)
       \<and> sanitizeName toUpperCase (sanitizeName toUpperCase name) = sanitizeName toUpperCase name
       \<and> ((\<forall>c \<in> set (animationName h). nameUnit c) \<longrightarrow>
            (\<forall>c \<in> set (exportName (fold (onSequenceEvent toUpperCase) evs h)). nameUnit c)
            \<and> sanitizeName toUpperCase (exportName (fold (onSequenceEvent toUpperCase) evs h))
                = exportName (fold (onSequenceEvent toUpperCase) evs h))
       \<and> ((\<forall>c \<in> set (imageName g). nameUnit c) \<longrightarrow>
            (\<forall>c \<in> set (singleExportName (fold (onSingleEvent toUpperCase) evs' g)). nameUnit c)
            \<and> sanitizeName toUpperCase (singleExportName (fold (onSingleEvent toUpperCase) evs' g))
                = singleExportName (fold (onSingleEvent toUpperCase) evs' g))"
proof -
  have idem: "sanitizeName toUpperCase (sanitizeName toUpperCase name) = sanitizeName toUpperCase name"
    by (rule sanitizeName_fixed [OF assms sanitizeName_units])
  have seq: "(\<forall>c \<in> set (exportName (fold (onSequenceEvent toUpperCase) evs h)). nameUnit c)
      \<and> sanitizeName toUpperCase (exportName (fold (onSequenceEvent toUpperCase) evs h))
          = exportName (fold (onSequenceEvent toUpperCase) evs h)"
    if "\<forall>c \<in> set (animationName h). nameUnit c"
  proof -
    have u: "\<forall>c \<in> set (exportName (fold (onSequenceEvent toUpperCase) evs h)). nameUnit c"
      by (rule exportName_units [OF sequence_names [OF that]])
    with sanitizeName_fixed [OF assms u] show ?thesis by simp
  qed
  have sgl: "(\<forall>c \<in> set (singleExportName (fold (onSingleEvent toUpperCase) evs' g)). nameUnit c)
      \<and> sanitizeName toUpperCase (singleExportName (fold (onSingleEvent toUpperCase) evs' g))
          = singleExportName (fold (onSingleEvent toUpperCase) evs' g)"
    if "\<forall>c \<in> set (imageName g). nameUnit c"
  proof -
    have u: "\<forall>c \<in> set (singleExportName (fold (onSingleEvent toUpperCase) evs' g)). nameUnit c"
      by (rule singleExportName_units [OF single_names [OF that]])
    with sanitizeName_fixed [OF assms u] show ?thesis by simp
  qed
  show ?thesis
    using sanitizeName_units [of toUpperCase name] sanitizeName_replaces [of toUpperCase name]
      sanitizeName_ascii [OF assms, of name] idem seq sgl
    by blast
qed

theorem sanitizeName_idempotent_witness:
  "sanitizeName asciiToUpperCase (js_str ''frame-01.b'') = js_str ''FRAME_01_B''
   \<and> sanitizeName asciiToUpperCase (js_str ''frame-01.b'')
       = map (\<lambda>c. if nameUnit (asciiUpper c) then asciiUpper c else 95) (js_str ''frame-01.b'')
   \<and> sanitizeName asciiToUpperCase (js_str ''FRAME_01_B'') = js_str ''FRAME_01_B''
   \<and> sanitizeName asciiToUpperCase (exportName (fold (onSequenceEvent asciiToUpperCase)
          [NameEntered (js_str ''my anim''), FilesChosen mixedBatch] new_SequenceHandler))
       = exportName (fold (onSequenceEvent asciiToUpperCase)
          [NameEntered (js_str ''my anim''), FilesChosen mixedBatch] new_SequenceHandler)
   \<and> sanitizeName asciiToUpperCase (singleExportName (fold (onSingleEvent asciiToUpperCase)
          [ImageNameEntered (js_str ''my logo'')] new_SingleImageHandler))
       = singleExportName (fold (onSingleEvent asciiToUpperCase)
          [ImageNameEntered (js_str ''my logo'')] new_SingleImageHandler)"
proof -
  have e: "\<forall>c \<in> set (animationName new_SequenceHandler). nameUnit c"
    and e': "\<forall>c \<in> set (imageName new_SingleImageHandler). nameUnit c"
    by (simp_all add: new_SequenceHandler_def new_SingleImageHandler_def)
  have low: "\<forall>c \<in> set (js_str ''frame-01.b''). unat c < 128"
    by code_simp
  note t = sanitizeName_idempotent [OF asciiToUpperCase_ascii,
      of "js_str ''frame-01.b''" new_SequenceHandler
         "[NameEntered (js_str ''my anim''), FilesChosen mixedBatch]"
         new_SingleImageHandler "[ImageNameEntered (js_str ''my logo'')]"]
  from t have "sanitizeName asciiToUpperCase (sanitizeName asciiToUpperCase (js_str ''frame-01.b''))
      = sanitizeName asciiToUpperCase (js_str ''frame-01.b'')"
    by blast
  then have "sanitizeName asciiToUpperCase (js_str ''FRAME_01_B'') = js_str ''FRAME_01_B''"
    unfolding sanitizeName_example .
  with t e e' low show ?thesis
    using sanitizeName_example by blast
qed

section \<open>Properties of the generated identifier\<close>

lemma js_or_zero:
  assumes "0 \<le> r" "r < 16"
  shows "js_or r 0 = r"
proof -
  have "- (2 ^ 31) \<le> r" "r < 2 ^ 31" using assms by simp_all
  then show ?thesis
    by (simp add: js_or_def ToInt32_def sint_sbintrunc' signed_take_bit_int_eq_self)
qed

lemma variant_nibble:
  assumes "0 \<le> r" "r < 16"
  shows "js_or (js_and r 3) 8 = 8 + r mod 4"
proof -
  have "r = 0 \<or> r = 1 \<or> r = 2 \<or> r = 3 \<or> r = 4 \<or> r = 5 \<or> r = 6 \<or> r = 7
      \<or> r = 8 \<or> r = 9 \<or> r = 10 \<or> r = 11 \<or> r = 12 \<or> r = 13 \<or> r = 14 \<or> r = 15"
    using assms by arith
  then show ?thesis
    by (elim disjE) (simp_all add: js_or_def js_and_def ToInt32_def)
qed

lemma draw_floor:
  assumes "0 \<le> x" "x < 1"
  shows "js_trunc (x * 16) = \<lfloor>x * 16\<rfloor>" "0 \<le> \<lfloor>x * 16\<rfloor>" "\<lfloor>x * 16\<rfloor> < 16"
proof -
  show "js_trunc (x * 16) = \<lfloor>x * 16\<rfloor>" using assms by (simp add: js_trunc_def)
  show "0 \<le> \<lfloor>x * 16\<rfloor>" using assms by simp
  have "x * 16 < 16" using assms by simp
  then show "\<lfloor>x * 16\<rfloor> < 16" by (simp add: floor_less_iff)
qed

lemma toString16_digit:
  assumes "0 \<le> v" "v < 16"
  shows "toString16 v = [hexDigit (nat v)]"
  using assms by (simp add: toString16_def natToHex.simps)

lemma guidDigit_x:
  assumes "0 \<le> x" "x < 1"
  shows "guidDigit CHR ''x'' x = [hexDigit (nat \<lfloor>x * 16\<rfloor>)]"
  using draw_floor [OF assms]
  by (simp add: guidDigit_def Let_def js_or_zero toString16_digit)

lemma guidDigit_y:
  assumes "0 \<le> x" "x < 1"
  shows "guidDigit CHR ''y'' x = [hexDigit (nat (8 + \<lfloor>x * 16\<rfloor> mod 4))]"
proof -
  have "0 \<le> 8 + \<lfloor>x * 16\<rfloor> mod 4" "8 + \<lfloor>x * 16\<rfloor> mod 4 < 16"
    by simp_all
  then show ?thesis
    using draw_floor [OF assms]
    by (simp add: guidDigit_def Let_def js_or_zero variant_nibble toString16_digit)
qed

lemma hexDigit_hex: "hexDigit n \<in> set ''0123456789abcdef''"
proof -
  have "n mod 16 < length ''0123456789abcdef''" by simp
  then show ?thesis unfolding hexDigit_def by (rule nth_mem)
qed

lemma hexDigit_variant:
  fixes r :: int
  shows "hexDigit (nat (8 + r mod 4)) \<in> set ''89ab''"
proof -
  have "r mod 4 = 0 \<or> r mod 4 = 1 \<or> r mod 4 = 2 \<or> r mod 4 = 3" by arith
  then show ?thesis
    by (elim disjE) (simp_all add: hexDigit_def)
qed

lemma generateGUID_unfold:
  assumes "\<And>i. 0 \<le> random i \<and> random i < 1"
  shows "generateGUID random = 
    (let h = (\<lambda>i. hexDigit (nat \<lfloor>random i * 16\<rfloor>)) in
     [CHR ''{'', h 0, h 1, h 2, h 3, h 4, h 5, h 6, h 7, CHR ''-'', h 8, h 9, h 10, h 11, CHR ''-'',
      CHR ''4'', h 12, h 13, h 14, CHR ''-'', hexDigit (nat (8 + \<lfloor>random 15 * 16\<rfloor> mod 4)),
      h 16, h 17, h 18, CHR ''-'', h 19, h 20, h 21, h 22, h 23, h 24, h 25, h 26, h 27, h 28, h 29, h 30,
      CHR ''}''])"
proof -
  have x: "guidDigit CHR ''x'' (random i) = [hexDigit (nat \<lfloor>random i * 16\<rfloor>)]" for i
    using assms [of i] by (intro guidDigit_x) simp_all
  have y: "guidDigit CHR ''y'' (random i) = [hexDigit (nat (8 + \<lfloor>random i * 16\<rfloor> mod 4))]" for i
    using assms [of i] by (intro guidDigit_y) simp_all
  show ?thesis
    by (simp add: generateGUID_def x y Let_def eval_nat_numeral)
qed

lemma cycleRandom_range: "0 \<le> cycleRandom i \<and> cycleRandom i < 1"
  by (simp add: cycleRandom_def)

lemma cycleRandom_guid:
  "generateGUID cycleRandom = ''{01234567-89ab-4cde-b012-3456789abcde}''"
  by code_simp

text \<open>
  C8 (as amended). For every draw of the random source, the generated identifier is a
  38-character string: an opening brace, 36 characters in the shape of a version-4
  UUID, and a closing brace. Of the 36, those at positions 8, 13, 18 and 23 are dashes,
  position 14 holds the version nibble 4, position 19 one of 8, 9, a, b, and every other
  position a lowercase hexadecimal digit.
\<close>

theorem guid_shape:
  assumes "\<And>i. 0 \<le> random i \<and> random i < 1"
  shows "generateGUID random = CHR ''{'' # butlast (tl (generateGUID random)) @ ''}''
       \<and> length (generateGUID random) = 38
       \<and> length (butlast (tl (generateGUID random))) = 36
       \<and> butlast (tl (generateGUID random)) ! 8 = CHR ''-''
       \<and> butlast (tl (generateGUID random)) ! 13 = CHR ''-''
       \<and> butlast (tl (generateGUID random)) ! 18 = CHR ''-''
       \<and> butlast (tl (generateGUID random)) ! 23 = CHR ''-''
       \<and> butlast (tl (generateGUID random)) ! 14 = CHR ''4''
       \<and> butlast (tl (generateGUID random)) ! 19 \<in> set ''89ab''
       \<and> list_all2 slotOK ''xxxxxxxx-xxxx-4xxx-yxxx-xxxxxxxxxxxx'' (butlast (tl (generateGUID random)))"
  unfolding generateGUID_unfold [OF assms] Let_def
  using hexDigit_variant [of "\<lfloor>random 15 * 16\<rfloor>"]
  by (simp add: slotOK_def hexDigit_hex del: set_simps)

theorem guid_shape_witness:
  "length (generateGUID cycleRandom) = 38
   \<and> butlast (tl (generateGUID cycleRandom)) ! 14 = CHR ''4''
   \<and> butlast (tl (generateGUID cycleRandom)) ! 19 \<in> set ''89ab''"
  using guid_shape [of cycleRandom, OF cycleRandom_range] by simp

text \<open>The identifier has 38 characters, not 36.\<close>

theorem guid_length_counterexample: "length (generateGUID cycleRandom) \<noteq> 36"
  unfolding cycleRandom_guid by simp

section \<open>Properties of loading a batch\<close>

lemma loadLoop_matching:
  assumes "0 < i" "frameWidth h = Some w" "frameHeight h = Some ht"
    "\<forall>f \<in> set pre. \<exists>img. f_image f = Some img \<and> im_width img = w \<and> im_height img = ht"
  shows "loadLoop i (pre @ rest) h =
           loadLoop (i + length pre) rest
             (h\<lparr>sh_frames := sh_frames h @ framesOf i pre, fileList := fileList h @ map f_name pre\<rparr>)"
  using assms
proof (induction pre arbitrary: i h)
  case Nil
  then show ?case by simp
next
  case (Cons f pre)
  from Cons.prems(4) obtain img where img: "f_image f = Some img" "im_width img = w" "im_height img = ht"
    by auto
  have step: "loadLoop i ((f # pre) @ rest) h = loadLoop (Suc i) (pre @ rest) (addFrame i f img h)"
    using Cons.prems(1-3) img by simp
  have "loadLoop (Suc i) (pre @ rest) (addFrame i f img h) =
          loadLoop (Suc i + length pre) rest
            ((addFrame i f img h)\<lparr>sh_frames := sh_frames (addFrame i f img h) @ framesOf (Suc i) pre,
               fileList := fileList (addFrame i f img h) @ map f_name pre\<rparr>)"
    using Cons.prems by (intro Cons.IH) (simp_all add: addFrame_def)
  then show ?case
    unfolding step using img by (simp add: addFrame_def)
qed

lemma loadLoop_mismatch:
  assumes "0 < i" "frameWidth h = Some w" "frameHeight h = Some ht"
    "f_image bad = Some img" "im_width img \<noteq> w \<or> im_height img \<noteq> ht"
  shows "loadLoop i (bad # post) h =
           (h, Some (DimensionMismatch (i + 1) (im_width img) (im_height img) (Some w) (Some ht)))"
  using assms by auto

lemma loadFrames_mismatch:
  assumes "f_image f0 = Some img0"
    "\<forall>f \<in> set pre. \<exists>img. f_image f = Some img \<and> im_width img = im_width img0 \<and> im_height img = im_height img0"
    "f_image bad = Some img" "im_width img \<noteq> im_width img0 \<or> im_height img \<noteq> im_height img0"
  shows "loadFrames toUpperCase (f0 # pre @ bad # post) h =
           h\<lparr>sh_frames := framesOf 0 (f0 # pre), fileList := map f_name (f0 # pre),
             frameWidth := Some (im_width img0), frameHeight := Some (im_height img0),
             snackbar := snackbar h @
               [Failed (DimensionMismatch (length pre + 2) (im_width img) (im_height img)
                  (Some (im_width img0)) (Some (im_height img0)))]\<rparr>"
proof -
  let ?h1 = "addFrame 0 f0 img0
      (h\<lparr>sh_frames := [], fileList := [], frameWidth := Some (im_width img0), frameHeight := Some (im_height img0)\<rparr>)"
  have first: "loadLoop 0 (f0 # pre @ bad # post) (h\<lparr>sh_frames := [], fileList := []\<rparr>) =
                 loadLoop (Suc 0) (pre @ bad # post) ?h1"
    using assms(1) by simp
  have w: "frameWidth ?h1 = Some (im_width img0)" and ht: "frameHeight ?h1 = Some (im_height img0)"
    by (simp_all add: addFrame_def)
  note m = loadLoop_matching [of "Suc 0" ?h1, OF _ w ht assms(2), of "bad # post", simplified]
  let ?h2 = "?h1\<lparr>sh_frames := sh_frames ?h1 @ framesOf (Suc 0) pre, fileList := fileList ?h1 @ map f_name pre\<rparr>"
  have w2: "frameWidth ?h2 = Some (im_width img0)" and ht2: "frameHeight ?h2 = Some (im_height img0)"
    by (simp_all add: addFrame_def)
  note e = loadLoop_mismatch [of "Suc (length pre)" ?h2, OF _ w2 ht2 assms(3,4), of post, simplified]
  show ?thesis
    unfolding loadFrames_def first using m e assms(1)
    by (simp add: addFrame_def)
qed

lemma framesOf_decoded:
  assumes "\<forall>f \<in> set fs. \<exists>img. f_image f = Some img \<and> im_width img = w \<and> im_height img = ht"
  shows "length (framesOf i fs) = length fs"
    and "map fr_filename (framesOf i fs) = map f_name fs"
    and "\<forall>fr \<in> set (framesOf i fs). im_width (fr_image fr) = w \<and> im_height (fr_image fr) = ht"
  using assms
  by (induction fs arbitrary: i) (auto simp add: mkFrame_def)

lemma mixedBatch_split:
  "mixedBatch = \<lparr>f_name = js_str ''a_001.png'', f_image = Some smallImage\<rparr> # [] @
                \<lparr>f_name = js_str ''a_002.png'', f_image = Some wideImage\<rparr> # []"
  by (simp add: mixedBatch_def)

lemma mixedBatch_load:
  "sh_frames (loadFrames asciiToUpperCase mixedBatch new_SequenceHandler) =
     [mkFrame 0 \<lparr>f_name = js_str ''a_001.png'', f_image = Some smallImage\<rparr> smallImage]"
  unfolding mixedBatch_split
  by (subst loadFrames_mismatch [where ?img0.0 = smallImage and img = wideImage])
     (simp_all add: smallImage_def wideImage_def)

text \<open>
  C6 (as amended). For every batch in which the files before the first frame of
  differing dimensions all decode, ingestion stops at that frame with an error that
  \<open>loadFrames\<close> catches and shows as a message. Neither that frame nor any later one
  is added, and the frame manager is not given the new sequence; but the frames of the
  batch before it, all of the first frame's dimensions, stay in the handler's frame
  list, which was emptied at the start of the batch.
\<close>

theorem load_mismatch_keeps_prefix:
  assumes "f_image f0 = Some img0"
    "\<forall>f \<in> set pre. \<exists>img. f_image f = Some img \<and> im_width img = im_width img0 \<and> im_height img = im_height img0"
    "f_image bad = Some img" "im_width img \<noteq> im_width img0 \<or> im_height img \<noteq> im_height img0"
  shows "sh_frames (loadFrames toUpperCase (f0 # pre @ bad # post) h) = framesOf 0 (f0 # pre)
       \<and> length (sh_frames (loadFrames toUpperCase (f0 # pre @ bad # post) h)) = Suc (length pre)
       \<and> map fr_filename (sh_frames (loadFrames toUpperCase (f0 # pre @ bad # post) h)) = map f_name (f0 # pre)
       \<and> (\<forall>fr \<in> set (sh_frames (loadFrames toUpperCase (f0 # pre @ bad # post) h)).
             im_width (fr_image fr) = im_width img0 \<and> im_height (fr_image fr) = im_height img0)
       \<and> frameManager (loadFrames toUpperCase (f0 # pre @ bad # post) h) = frameManager h
       \<and> snackbar (loadFrames toUpperCase (f0 # pre @ bad # post) h) =
           snackbar h @ [Failed (DimensionMismatch (length pre + 2) (im_width img) (im_height img)
                           (Some (im_width img0)) (Some (im_height img0)))]"
proof -
  have all: "\<forall>f \<in> set (f0 # pre). \<exists>img. f_image f = Some img \<and> im_width img = im_width img0
               \<and> im_height img = im_height img0"
    using assms(1,2) by simp
  show ?thesis
    unfolding loadFrames_mismatch [OF assms]
    using framesOf_decoded [OF all, of 0] by simp
qed

theorem load_mismatch_keeps_prefix_witness:
  "length (sh_frames (loadFrames asciiToUpperCase mixedBatch new_SequenceHandler)) = 1
   \<and> map fr_filename (sh_frames (loadFrames asciiToUpperCase mixedBatch new_SequenceHandler)) = [js_str ''a_001.png'']
   \<and> snackbar (loadFrames asciiToUpperCase mixedBatch new_SequenceHandler)
       = [Failed (DimensionMismatch 2 2 1 (Some 1) (Some 1))]"
proof -
  let ?f0 = "\<lparr>f_name = js_str ''a_001.png'', f_image = Some smallImage\<rparr>"
  let ?bad = "\<lparr>f_name = js_str ''a_002.png'', f_image = Some wideImage\<rparr>"
  have 1: "f_image ?f0 = Some smallImage" and 3: "f_image ?bad = Some wideImage"
    by simp_all
  have 2: "\<forall>f \<in> set []. \<exists>img. f_image f = Some img \<and> im_width img = im_width smallImage
             \<and> im_height img = im_height smallImage"
    by simp
  have 4: "im_width wideImage \<noteq> im_width smallImage \<or> im_height wideImage \<noteq> im_height smallImage"
    by (simp add: smallImage_def wideImage_def)
  note t = load_mismatch_keeps_prefix [OF 1 2 3 4, of asciiToUpperCase "[]" new_SequenceHandler,
      folded mixedBatch_split]
  have d: "im_width wideImage = 2" "im_height wideImage = 1" "im_width smallImage = 1"
    "im_height smallImage = 1" "snackbar new_SequenceHandler = []"
    by (simp_all add: smallImage_def wideImage_def new_SequenceHandler_def)
  from t show ?thesis
    by (simp add: d mkFrame_def)
qed

text \<open>
  After the batch of a 1 by 1 and a 2 by 1 image has failed, the handler's frame list
  holds the first frame of that batch.
\<close>

theorem load_mismatch_counterexample:
  "sh_frames (loadFrames asciiToUpperCase mixedBatch new_SequenceHandler) \<noteq> []"
  unfolding mixedBatch_load by simp

end
